theory Spec2Isabelle
  imports Main "HOL-Library.Word"
begin

unbundle bit_operations_syntax

section \<open>Python values used by FinCrypt\<close>

text \<open>
  Python \<open>bytes\<close> are lists of 8-bit words, Python integers are unbounded (\<open>int\<close>),
  and every exception the source can raise is a value of type \<open>error\<close>; a function
  that may raise returns \<open>error + 'a\<close> with \<open>Inl\<close> the exception.
\<close>

type_synonym byte = "8 word"
type_synonym bytes = "byte list"

datatype error =
    ValueError
  | OverflowError
  | IndexError
  | TypeError
  | AttributeError
  | ExternalError
  | FinCryptDecodingError string

definition bind_err :: "error + 'a \<Rightarrow> ('a \<Rightarrow> error + 'b) \<Rightarrow> error + 'b" where
  "bind_err r f = (case r of Inl e \<Rightarrow> Inl e | Inr v \<Rightarrow> f v)"

text \<open>\<open>xs[i]\<close> for a non-negative literal index: IndexError out of range.\<close>

definition py_index :: "'a list \<Rightarrow> nat \<Rightarrow> error + 'a" where
  "py_index xs i = (if i < length xs then Inr (xs ! i) else Inl IndexError)"

text \<open>\<open>range(0, stop, step)\<close> for a positive step.\<close>

definition py_range_step :: "nat \<Rightarrow> nat \<Rightarrow> nat list" where
  "py_range_step stop step = map (\<lambda>j. j * step) [0 ..< (stop + step - 1) div step]"

section \<open>fincrypt.get\_blocks\<close>

text \<open>
  The inner loop of \<open>get_blocks\<close>: the block is reversed and every byte is added with
  the weight \<open>256 ** i\<close> of its position in the reversed block.
\<close>

definition block_num :: "bytes \<Rightarrow> int" where
  "block_num block =
     foldl (\<lambda>acc (i, char). acc + uint char * 256 ^ i) 0 (enumerate 0 (rev block))"

text \<open>
  \<open>get_blocks(message, block_size)\<close>. \<open>range\<close> raises ValueError for a zero step and is
  empty for a negative one (its start is 0 and its stop is \<open>len(message) \<ge> 0\<close>).
\<close>

definition get_blocks :: "bytes \<Rightarrow> int \<Rightarrow> error + int list" where
  "get_blocks message block_size =
     (if block_size = 0 then Inl ValueError
      else if block_size < 0 then Inr []
      else Inr (map (\<lambda>i. block_num (take (nat block_size) (drop i message)))
                    (py_range_step (length message) (nat block_size))))"

text \<open>
  The specification's reading of a digest: one big-endian base-256 integer, the first
  byte being the most significant.
\<close>

definition big_endian_int :: "bytes \<Rightarrow> int" where
  "big_endian_int h = foldl (\<lambda>acc b. acc * 256 + uint b) 0 h"

section \<open>oaep.py\<close>

text \<open>
  \<open>int.from_bytes(bs, 'little')\<close> and \<open>v.to_bytes(n, 'little')\<close>. The latter raises
  ValueError for a negative length and OverflowError when \<open>v\<close> is negative or does not
  fit into \<open>n\<close> bytes.
\<close>

definition from_bytes_little :: "bytes \<Rightarrow> int" where
  "from_bytes_little bs = foldr (\<lambda>b r. uint b + 256 * r) bs 0"

fun little_digits :: "nat \<Rightarrow> int \<Rightarrow> bytes" where
  "little_digits 0 v = []"
| "little_digits (Suc n) v = word_of_int (v mod 256) # little_digits n (v div 256)"

definition to_bytes_little :: "int \<Rightarrow> int \<Rightarrow> error + bytes" where
  "to_bytes_little v n =
     (if n < 0 then Inl ValueError
      else if v < 0 \<or> 256 ^ nat n \<le> v then Inl OverflowError
      else Inr (little_digits (nat n) v))"

text \<open>
  \<open>SystemRandom().getrandbits(k)\<close> returns a non-negative integer of \<open>k\<close> random bits.
  The bits come from the operating system; they are the argument \<open>entropy\<close> here, of
  which \<open>k\<close> bits are kept.
\<close>

definition getrandbits :: "nat \<Rightarrow> nat \<Rightarrow> int" where
  "getrandbits k entropy = int (entropy mod 2 ^ k)"

text \<open>
  The slices \<open>data[:-a]\<close> and \<open>data[-a:]\<close> for \<open>a \<ge> 0\<close>. A start or stop before the
  beginning of the data is clamped to it, and \<open>-0\<close> is the index 0.
\<close>

definition slice_to_neg :: "'a list \<Rightarrow> nat \<Rightarrow> 'a list" where
  "slice_to_neg data a = (if a = 0 then [] else take (length data - a) data)"

definition slice_from_neg :: "'a list \<Rightarrow> nat \<Rightarrow> 'a list" where
  "slice_from_neg data a = (if a = 0 then data else drop (length data - a) data)"

text \<open>
  \<open>sha.SHAKE256(data).digest(n)\<close> is the parameter \<open>SHAKE256 data n\<close>: the module
  \<open>sha\<close> is not part of the sources. A digest is requested only after
  \<open>to_bytes\<close> has accepted the same length, so the length is never negative there.
\<close>

definition oaep_pad :: "(bytes \<Rightarrow> nat \<Rightarrow> bytes) \<Rightarrow> nat \<Rightarrow> bytes \<Rightarrow> nat \<Rightarrow> error + bytes" where
  "oaep_pad SHAKE256 entropy message append_length =
     (let r = getrandbits append_length entropy;
          len = int (length message);
          m = from_bytes_little message
      in bind_err (to_bytes_little r (int append_length)) (\<lambda>r_bytes.
         let x = from_bytes_little (SHAKE256 r_bytes (nat len)) XOR m
         in bind_err (to_bytes_little x len) (\<lambda>x_bytes.
            let y = from_bytes_little (SHAKE256 x_bytes append_length) XOR r
            in bind_err (to_bytes_little x len) (\<lambda>x_out.
               bind_err (to_bytes_little y (int append_length)) (\<lambda>y_out.
                 Inr (x_out @ y_out))))))"

definition oaep_unpad :: "(bytes \<Rightarrow> nat \<Rightarrow> bytes) \<Rightarrow> bytes \<Rightarrow> nat \<Rightarrow> error + bytes" where
  "oaep_unpad SHAKE256 data append_length =
     (let len = int (length data) - int append_length;
          x = from_bytes_little (slice_to_neg data append_length);
          y = from_bytes_little (slice_from_neg data append_length)
      in bind_err (to_bytes_little x len) (\<lambda>x_bytes.
         bind_err (to_bytes_little (y XOR from_bytes_little (SHAKE256 x_bytes append_length))
                     (int append_length)) (\<lambda>r.
           let message = x XOR from_bytes_little (SHAKE256 r (nat len))
           in to_bytes_little message len)))"

text \<open>The contract of an extendable-output function: it returns as many bytes as requested.\<close>

definition shake_contract :: "(bytes \<Rightarrow> nat \<Rightarrow> bytes) \<Rightarrow> bool" where
  "shake_contract SHAKE256 = (\<forall>d n. length (SHAKE256 d n) = n)"

text \<open>A small stand-in with that contract, to run the padding on concrete inputs.\<close>

definition toy_shake :: "bytes \<Rightarrow> nat \<Rightarrow> bytes" where
  "toy_shake d n = map (\<lambda>i. word_of_nat (7 * i + length d) + foldr (+) d 1) [0 ..< n]"


section \<open>The regular expression of strip\_headers\<close>

text \<open>
  The fragment of Python's \<open>re\<close> syntax that \<open>strip_headers\<close> uses: literals, character
  classes (possibly negated, with ranges), sequence, alternation, the greedy operators
  \<open>?\<close> and \<open>+\<close>, and capturing groups. Non-capturing groups \<open>(?:...)\<close> only
  bracket, so they are the term structure itself.
\<close>

datatype class_item = Single char | Range char char

datatype regex =
    Lit string
  | Class bool "class_item list"
  | Seq regex regex
  | Alt regex regex
  | Opt regex
  | Plus regex
  | Group nat regex

fun in_item :: "char \<Rightarrow> class_item \<Rightarrow> bool" where
  "in_item c (Single d) = (c = d)"
| "in_item c (Range lo hi) = ((of_char lo :: nat) \<le> of_char c \<and> (of_char c :: nat) \<le> of_char hi)"

text \<open>\<open>Class True items\<close> is the negated class \<open>[^...]\<close>.\<close>

definition in_class :: "bool \<Rightarrow> class_item list \<Rightarrow> char \<Rightarrow> bool" where
  "in_class negated items c = (list_ex (in_item c) items \<noteq> negated)"

type_synonym captures = "nat \<Rightarrow> string option"

text \<open>
  A backtracking matcher. \<open>rmatch r (caps, s)\<close> lists, in the order in which Python's
  engine tries them, the ways \<open>r\<close> can match a prefix of \<open>s\<close>: each with the groups
  captured so far and the rest of the text. Greedy operators list the longer match first.
  The first element of the list for the whole pattern is the match Python reports.
\<close>

fun rmatch :: "regex \<Rightarrow> captures \<times> string \<Rightarrow> (captures \<times> string) list" where
  "rmatch (Lit l) (caps, s) =
     (if take (length l) s = l then [(caps, drop (length l) s)] else [])"
| "rmatch (Class negated items) (caps, s) =
     (case s of [] \<Rightarrow> []
      | c # rest \<Rightarrow> if in_class negated items c then [(caps, rest)] else [])"
| "rmatch (Seq r1 r2) (caps, s) = concat (map (rmatch r2) (rmatch r1 (caps, s)))"
| "rmatch (Alt r1 r2) (caps, s) = rmatch r1 (caps, s) @ rmatch r2 (caps, s)"
| "rmatch (Opt r) (caps, s) = rmatch r (caps, s) @ [(caps, s)]"
| "rmatch (Plus r) (caps, s) =
     concat (map (\<lambda>(caps', s').
                    (if length s' < length s then rmatch (Plus r) (caps', s') else [])
                    @ [(caps', s')])
                 (rmatch r (caps, s)))"
| "rmatch (Group n r) (caps, s) =
     map (\<lambda>(caps', s'). (caps'(n \<mapsto> take (length s - length s') s), s'))
         (rmatch r (caps, s))"

text \<open>\<open>re.match(pattern, text)\<close>: anchored at the start of the text only.\<close>

definition re_match :: "regex \<Rightarrow> string \<Rightarrow> captures option" where
  "re_match r text =
     (case rmatch r (Map.empty, text) of [] \<Rightarrow> None | (caps, rest) # other \<Rightarrow> Some caps)"

section \<open>fincrypt.strip\_headers\<close>

definition newline :: char where
  "newline = CHR 0x0A"

text \<open>\<open>-+\<close>\<close>

definition dashes :: regex where
  "dashes = Plus (Class False [Single CHR ''-''])"

text \<open>\<open>FINCRYPT (?:PUBLIC |PRIVATE )?(?:KEY|MESSAGE)\<close>, after BEGIN or END.\<close>

definition label_tail :: regex where
  "label_tail =
     Seq (Lit ''FINCRYPT '')
       (Seq (Opt (Alt (Lit ''PUBLIC '') (Lit ''PRIVATE '')))
            (Alt (Lit ''KEY'') (Lit ''MESSAGE'')))"

text \<open>\<open>[a-zA-Z0-9\n\-_=]\<close>\<close>

definition body_class :: "class_item list" where
  "body_class =
     [Range CHR ''a'' CHR ''z'', Range CHR ''A'' CHR ''Z'', Range CHR ''0'' CHR ''9'',
      Single newline, Single CHR ''-'', Single CHR ''_'', Single CHR ''='']"

text \<open>
  The pattern of \<open>strip_headers\<close>:
  \<^verbatim>\<open>(?:-+ (BEGIN FINCRYPT (?:PUBLIC |PRIVATE )?(?:KEY|MESSAGE)) -+\n)\<close>
  \<^verbatim>\<open>([a-zA-Z0-9\n\-_=]+[^\n])\<close>
  \<^verbatim>\<open>(?:\n-+ END FINCRYPT (?:PUBLIC |PRIVATE )?(?:KEY|MESSAGE) -+)\<close>
\<close>

definition header_pattern :: regex where
  "header_pattern =
     Seq dashes (Seq (Lit '' '')
       (Seq (Group 1 (Seq (Lit ''BEGIN '') label_tail))
         (Seq (Lit '' '') (Seq dashes (Lit [newline])))))"

definition body_pattern :: regex where
  "body_pattern = Group 2 (Seq (Plus (Class False body_class)) (Class True [Single newline]))"

definition footer_pattern :: regex where
  "footer_pattern =
     Seq (Lit [newline]) (Seq dashes (Seq (Lit '' END '')
       (Seq label_tail (Seq (Lit '' '') dashes))))"

definition pem_pattern :: regex where
  "pem_pattern = Seq header_pattern (Seq body_pattern footer_pattern)"

text \<open>\<open>strip_headers(pem_text)\<close>: \<open>(match[1], match[2])\<close>, or \<open>(None, None)\<close> without a match.\<close>

definition strip_headers :: "string \<Rightarrow> string option \<times> string option" where
  "strip_headers pem_text =
     (case re_match pem_pattern pem_text of
        None \<Rightarrow> (None, None)
      | Some caps \<Rightarrow> (caps 1, caps 2))"

text \<open>The numbers of the capturing groups of a pattern.\<close>

fun groups :: "regex \<Rightarrow> nat set" where
  "groups (Lit l) = {}"
| "groups (Class negated items) = {}"
| "groups (Seq r1 r2) = groups r1 \<union> groups r2"
| "groups (Alt r1 r2) = groups r1 \<union> groups r2"
| "groups (Opt r) = groups r"
| "groups (Plus r) = groups r"
| "groups (Group n r) = insert n (groups r)"

section \<open>Values exchanged with the other modules\<close>

text \<open>
  The dictionaries returned by \<open>read_public_key\<close> and \<open>read_private_key\<close>, and the native
  form of a decoded \<open>FinCryptMessage\<close> (\<open>message\<close>: the ciphertext, \<open>key\<close> and
  \<open>signature\<close>: lists of integers).
\<close>

record public_key =
  pk_kx :: int
  pk_ky :: int
  pk_name :: bytes
  pk_email :: bytes

record private_key =
  sk_k :: int
  sk_name :: bytes
  sk_email :: bytes

record envelope =
  env_message :: bytes
  env_key :: "int list"
  env_signature :: "int list"

text \<open>
  The modules \<open>sha\<close>, \<open>ecc\<close>, \<open>aes\<close>, \<open>reedsolomon\<close>, \<open>asn1spec\<close> and the libraries
  \<open>base64\<close> and \<open>pyasn1\<close> are not part of the sources. Their functions are the fields of
  the record \<open>modules\<close>, a parameter of everything that calls them; a call that may
  raise returns \<open>error + 'a\<close>. Random choices made inside \<open>ecc\<close> are a function of an
  entropy argument.

  \<^item> \<open>SHA3_512 b\<close> is \<open>sha.SHA3_512(b).digest()\<close> for a byte string \<open>b\<close>, and
    \<open>SHA3_512_None\<close> is what \<open>sha.SHA3_512(None).digest()\<close> does.
  \<^item> \<open>SHAKE256 b n\<close> is \<open>sha.SHAKE256(b).digest(n)\<close>.
  \<^item> \<open>ecies_points (kx, ky) entropy\<close> are the two curve points an exchange with the public
    key \<open>(kx, ky)\<close> computes from a fresh scalar \<open>u\<close>: the ephemeral point \<open>R = u * G\<close> and
    the shared point \<open>S = u * (kx, ky)\<close>. \<open>ecies_recover_point (rx, ry) k\<close> is the point
    \<open>k * (rx, ry)\<close>. A point is the pair of its affine coordinates.
  \<^item> \<open>dsa_sign k num entropy\<close> and \<open>dsa_validate (kx, ky) r s num\<close> are \<open>ECDSA.sign\<close> and
    \<open>ECDSA.validate\<close>.
  \<^item> \<open>AESModeOfOperationCBC key iv\<close> is the constructor of the CBC mode object, which
    raises for a key or an initialisation vector of the wrong size.
    \<open>encrypter_feed mode data\<close> is the whole output of \<open>Encrypter(mode)\<close> fed with \<open>data\<close>
    and then flushed by the empty \<open>feed()\<close>; \<open>decrypter_feed\<close> likewise for
    \<open>Decrypter(mode)\<close>.
  \<^item> \<open>rs_encode p\<close> and \<open>rs_decode p\<close> are \<open>RSCodec(p).encode\<close> and the first component of
    \<open>RSCodec(p).decode\<close>.
  \<^item> \<open>urlsafe_b64decode\<close> is \<open>base64.urlsafe_b64decode\<close>.
  \<^item> \<open>der_decode_public_key\<close>, \<open>der_decode_private_key\<close> and \<open>der_decode_message\<close> are
    \<open>decode_ber\<close> with the respective ASN.1 specification followed by \<open>encode_native\<close>;
    \<open>der_encode_message\<close> is \<open>encode_der\<close> of a \<open>FinCryptMessage\<close>.
\<close>

datatype cbc_mode = CBC bytes bytes

record modules =
  SHA3_512 :: "bytes \<Rightarrow> bytes"
  SHA3_512_None :: "error + bytes"
  SHAKE256 :: "bytes \<Rightarrow> nat \<Rightarrow> bytes"
  ecies_points :: "int \<times> int \<Rightarrow> nat \<Rightarrow> error + ((int \<times> int) \<times> (int \<times> int))"
  ecies_recover_point :: "int \<times> int \<Rightarrow> int \<Rightarrow> error + (int \<times> int)"
  dsa_sign :: "int \<Rightarrow> int \<Rightarrow> nat \<Rightarrow> error + (int \<times> int)"
  dsa_validate :: "int \<times> int \<Rightarrow> int \<Rightarrow> int \<Rightarrow> int \<Rightarrow> error + bool"
  AESModeOfOperationCBC :: "bytes \<Rightarrow> bytes \<Rightarrow> error + cbc_mode"
  encrypter_feed :: "cbc_mode \<Rightarrow> bytes \<Rightarrow> error + bytes"
  decrypter_feed :: "cbc_mode \<Rightarrow> bytes \<Rightarrow> error + bytes"
  rs_encode :: "nat \<Rightarrow> bytes \<Rightarrow> bytes"
  rs_decode :: "nat \<Rightarrow> bytes \<Rightarrow> error + bytes"
  urlsafe_b64decode :: "bytes \<Rightarrow> error + bytes"
  der_decode_public_key :: "bytes \<Rightarrow> error + public_key"
  der_decode_private_key :: "bytes \<Rightarrow> error + private_key"
  der_decode_message :: "bytes \<Rightarrow> error + envelope"
  der_encode_message :: "envelope \<Rightarrow> bytes"

text \<open>
  Modelled from the spec: the class \<open>ecc.ECEIS\<close> is missing. By the specification,
  \<open>exchange\<close> returns the ephemeral point \<open>R\<close> together with the shared secret, and the
  secret that the key derivation uses is the x-coordinate of the shared point \<open>S\<close>.
\<close>

definition exchange :: "modules \<Rightarrow> int \<times> int \<Rightarrow> nat \<Rightarrow> error + ((int \<times> int) \<times> int)" where
  "exchange M peer entropy =
     bind_err (ecies_points M peer entropy) (\<lambda>(R, S). Inr (R, fst S))"

text \<open>
  Modelled from the spec: the class \<open>ecc.ECEIS\<close> is missing. By the specification,
  \<open>recover\<close> returns the same secret from the ephemeral point and the private scalar: the
  x-coordinate of \<open>k * R\<close>.
\<close>

definition recover :: "modules \<Rightarrow> int \<times> int \<Rightarrow> int \<Rightarrow> error + int" where
  "recover M R k = bind_err (ecies_recover_point M R k) (\<lambda>S. Inr (fst S))"

section \<open>Python strings\<close>

text \<open>\<open>str(i)\<close> for an integer: its decimal digits, after a minus sign when negative.\<close>

definition digit_char :: "nat \<Rightarrow> char" where
  "digit_char d = char_of (of_char CHR ''0'' + d)"

fun decimal :: "nat \<Rightarrow> string" where
  "decimal n = (if n < 10 then [digit_char n] else decimal (n div 10) @ [digit_char (n mod 10)])"

declare decimal.simps [simp del]

definition str_int :: "int \<Rightarrow> string" where
  "str_int i = (if i < 0 then CHR ''-'' # decimal (nat (- i)) else decimal (nat i))"

text \<open>
  \<open>s.encode('utf-8')\<close>. A character is a code point below 256 here: one byte below
  128, two bytes from 128 on.
\<close>

definition utf8_char :: "char \<Rightarrow> bytes" where
  "utf8_char c =
     (let n = (of_char c :: nat)
      in if n < 128 then [word_of_nat n]
         else [word_of_nat (192 + n div 64), word_of_nat (128 + n mod 64)])"

definition encode_utf8 :: "string \<Rightarrow> bytes" where
  "encode_utf8 s = concat (map utf8_char s)"

text \<open>The slice \<open>xs[a:b]\<close> for literal bounds \<open>0 \<le> a \<le> b\<close>.\<close>

definition py_slice :: "nat \<Rightarrow> nat \<Rightarrow> 'a list \<Rightarrow> 'a list" where
  "py_slice a b xs = take (b - a) (drop a xs)"

section \<open>fincrypt.py: encryption and signature of one message\<close>

text \<open>
  \<open>encrypt_message(kx, ky, message)\<close>. The entropy of the ephemeral key and of the OAEP
  nonce are arguments. The CBC mode object is built from the key material before the
  message is padded; the padded message is then fed to the encrypter.
\<close>

definition encrypt_message ::
  "modules \<Rightarrow> nat \<Rightarrow> nat \<Rightarrow> int \<Rightarrow> int \<Rightarrow> bytes \<Rightarrow> error + ((int \<times> int) \<times> bytes)" where
  "encrypt_message M kem_entropy oaep_entropy kx ky message =
     bind_err (exchange M (kx, ky) kem_entropy) (\<lambda>(r, s).
       let s = encode_utf8 (str_int s);
           key = SHA3_512 M s
       in bind_err (AESModeOfOperationCBC M (py_slice 0 32 key) (py_slice 32 48 key))
            (\<lambda>mode.
          bind_err (oaep_pad (SHAKE256 M) oaep_entropy message 32) (\<lambda>padded.
          bind_err (encrypter_feed M mode padded)
            (\<lambda>encrypted_blocks. Inr (r, encrypted_blocks)))))"

text \<open>\<open>decrypt_message(k, encrypted_key, encrypted_message)\<close>\<close>

definition decrypt_message :: "modules \<Rightarrow> int \<Rightarrow> int list \<Rightarrow> bytes \<Rightarrow> error + bytes" where
  "decrypt_message M k encrypted_key encrypted_message =
     bind_err (py_index encrypted_key 0) (\<lambda>rx.
     bind_err (py_index encrypted_key 1) (\<lambda>ry.
     bind_err (recover M (rx, ry) k) (\<lambda>s.
       let s = encode_utf8 (str_int s);
           key = SHA3_512 M s
       in bind_err (AESModeOfOperationCBC M (py_slice 0 32 key) (py_slice 32 48 key))
            (\<lambda>mode.
          bind_err (decrypter_feed M mode encrypted_message)
            (\<lambda>decrypted_message. oaep_unpad (SHAKE256 M) decrypted_message 32)))))"

text \<open>\<open>sign_message(k, message)\<close>\<close>

definition sign_message :: "modules \<Rightarrow> nat \<Rightarrow> int \<Rightarrow> bytes \<Rightarrow> error + (int \<times> int)" where
  "sign_message M dsa_entropy k message =
     (let message_hash = SHA3_512 M message
      in bind_err (get_blocks message_hash 1024) (\<lambda>block.
         bind_err (py_index block 0) (\<lambda>num. dsa_sign M k num dsa_entropy)))"

text \<open>
  \<open>authenticate_message(kx, ky, plaintext, signature)\<close>. \<open>decrypt_and_verify\<close> passes
  \<open>None\<close> as the plaintext after a failed decryption, so the plaintext is optional.
\<close>

definition authenticate_message ::
  "modules \<Rightarrow> int \<Rightarrow> int \<Rightarrow> bytes option \<Rightarrow> int list \<Rightarrow> error + bool" where
  "authenticate_message M kx ky plaintext signature =
     bind_err (case plaintext of None \<Rightarrow> SHA3_512_None M | Some p \<Rightarrow> Inr (SHA3_512 M p))
       (\<lambda>message_hash.
     bind_err (get_blocks message_hash 1024) (\<lambda>block.
     bind_err (py_index signature 0) (\<lambda>r.
     bind_err (py_index signature 1) (\<lambda>s.
     bind_err (py_index block 0) (\<lambda>num. dsa_validate M (kx, ky) r s num)))))"

section \<open>fincrypt.py: keyfiles\<close>

text \<open>\<open>read_public_key(key_text)\<close>: the body is base64-decoded, Reed-Solomon decoded with 30
  parity symbols and then DER-decoded.\<close>

definition read_public_key :: "modules \<Rightarrow> string \<Rightarrow> error + public_key" where
  "read_public_key M key_text =
     (case strip_headers key_text of (key_header, key_text) \<Rightarrow>
        if key_header = None \<or> key_header \<noteq> Some ''BEGIN FINCRYPT PUBLIC KEY''
        then Inl ValueError
        else case key_text of
          None \<Rightarrow> Inl AttributeError
        | Some body \<Rightarrow>
            bind_err (urlsafe_b64decode M (encode_utf8 body)) (\<lambda>b64_decoded.
            bind_err (rs_decode M 30 b64_decoded) (\<lambda>b64_decoded.
            der_decode_public_key M b64_decoded)))"

text \<open>\<open>read_private_key(key_text)\<close>: the body is base64-decoded and then DER-decoded.\<close>

definition read_private_key :: "modules \<Rightarrow> string \<Rightarrow> error + private_key" where
  "read_private_key M key_text =
     (case strip_headers key_text of (key_header, key_text) \<Rightarrow>
        if key_header = None \<or> key_header \<noteq> Some ''BEGIN FINCRYPT PRIVATE KEY''
        then Inl ValueError
        else case key_text of
          None \<Rightarrow> Inl AttributeError
        | Some body \<Rightarrow>
            bind_err (urlsafe_b64decode M (encode_utf8 body)) (\<lambda>b64_decoded.
            der_decode_private_key M b64_decoded))"

section \<open>fincrypt.py: encrypt\_and\_sign and decrypt\_and\_verify\<close>

text \<open>
  \<open>encrypt_and_sign(message, recipient_key, signer_key)\<close>. The key arguments are the texts
  the file objects yield. The three \<open>try\<close> blocks replace any exception by a
  \<open>FinCryptDecodingError\<close>; \<open>sign_message\<close> is called outside of them.
\<close>

definition encrypt_and_sign ::
  "modules \<Rightarrow> nat \<times> nat \<times> nat \<Rightarrow> bytes \<Rightarrow> string \<Rightarrow> string \<Rightarrow> error + bytes" where
  "encrypt_and_sign M entropy message recipient_key signer_key =
     (case entropy of (kem_entropy, oaep_entropy, dsa_entropy) \<Rightarrow>
      case read_public_key M recipient_key of
        Inl e \<Rightarrow> Inl (FinCryptDecodingError ''Recipient keyfile was malformed.'')
      | Inr recipient_key \<Rightarrow>
      case read_private_key M signer_key of
        Inl e \<Rightarrow> Inl (FinCryptDecodingError ''Private key file is malformed.'')
      | Inr signer_key \<Rightarrow>
      case encrypt_message M kem_entropy oaep_entropy
             (pk_kx recipient_key) (pk_ky recipient_key) message of
        Inl e \<Rightarrow> Inl (FinCryptDecodingError ''Unknown error encountered when encrypting message.'')
      | Inr (encrypted_key, encrypted_blocks) \<Rightarrow>
      bind_err (sign_message M dsa_entropy (sk_k signer_key) message) (\<lambda>signature.
        let encrypted_message =
              \<lparr>env_message = encrypted_blocks,
               env_key = [fst encrypted_key, snd encrypted_key],
               env_signature = [fst signature, snd signature]\<rparr>;
            encoded_message = der_encode_message M encrypted_message
        in Inr (rs_encode M 8 encoded_message)))"

text \<open>
  \<open>decrypt_and_verify(message, sender_key, private_key)\<close> returns the pair of the
  plaintext (or \<open>None\<close>) and the verification flag.
\<close>

definition decrypt_and_verify ::
  "modules \<Rightarrow> bytes \<Rightarrow> string \<Rightarrow> string \<Rightarrow> error + (bytes option \<times> bool)" where
  "decrypt_and_verify M message sender_key private_key =
     (case read_private_key M private_key of
        Inl e \<Rightarrow> Inl (FinCryptDecodingError ''Private key file is malformed.'')
      | Inr decryption_key \<Rightarrow>
      case read_public_key M sender_key of
        Inl e \<Rightarrow> Inl (FinCryptDecodingError ''Sender key file is malformed.'')
      | Inr sender_key \<Rightarrow>
      case bind_err (rs_decode M 8 message) (der_decode_message M) of
        Inl e \<Rightarrow> Inr (None, False)
      | Inr decoded \<Rightarrow>
        let decrypted_message =
              (case decrypt_message M (sk_k decryption_key) (env_key decoded) (env_message decoded) of
                 Inl e \<Rightarrow> None
               | Inr m \<Rightarrow> Some m);
            authenticated =
              (case authenticate_message M (pk_kx sender_key) (pk_ky sender_key)
                      decrypted_message (env_signature decoded) of
                 Inl e \<Rightarrow> False
               | Inr b \<Rightarrow> b)
        in Inr (decrypted_message, authenticated))"

section \<open>Contracts of the external modules\<close>

text \<open>
  What the round trip of a message needs from the modules that are not part of the
  sources: digests of 64 bytes, a block cipher whose decryption undoes the encryption
  under a 32-byte key and a 16-byte initialisation vector, a Reed-Solomon codec and a DER
  codec that decode what they encoded (for envelopes with two key and two signature
  integers, the only ones \<open>encrypt_and_sign\<close> builds).
\<close>

definition sha3_contract :: "modules \<Rightarrow> bool" where
  "sha3_contract M = (\<forall>b. length (SHA3_512 M b) = 64)"

definition aes_contract :: "modules \<Rightarrow> bool" where
  "aes_contract M =
     (\<forall>key iv. length key = 32 \<longrightarrow> length iv = 16 \<longrightarrow>
        (\<exists>mode. AESModeOfOperationCBC M key iv = Inr mode
           \<and> (\<forall>d. \<exists>c. encrypter_feed M mode d = Inr c \<and> decrypter_feed M mode c = Inr d)))"

definition rs_contract :: "modules \<Rightarrow> nat \<Rightarrow> bool" where
  "rs_contract M p = (\<forall>b. rs_decode M p (rs_encode M p b) = Inr b)"

definition der_contract :: "modules \<Rightarrow> bool" where
  "der_contract M =
     (\<forall>c rx ry r s.
        der_decode_message M
          (der_encode_message M \<lparr>env_message = c, env_key = [rx, ry], env_signature = [r, s]\<rparr>)
        = Inr \<lparr>env_message = c, env_key = [rx, ry], env_signature = [r, s]\<rparr>)"

definition modules_contract :: "modules \<Rightarrow> bool" where
  "modules_contract M =
     (shake_contract (SHAKE256 M) \<and> sha3_contract M \<and> aes_contract M
      \<and> rs_contract M 8 \<and> der_contract M)"

text \<open>
  A public and a private key correspond when the private key recovers the shared secret
  of every exchange with the public key, and when every signature made with the private
  key on a number below \<open>2^512\<close> (a SHA3-512 digest) validates under the public key.
\<close>

definition kem_pair :: "modules \<Rightarrow> public_key \<Rightarrow> private_key \<Rightarrow> bool" where
  "kem_pair M pub priv =
     (\<forall>entropy. \<exists>r s. exchange M (pk_kx pub, pk_ky pub) entropy = Inr (r, s)
                     \<and> recover M r (sk_k priv) = Inr s)"

definition dsa_pair :: "modules \<Rightarrow> public_key \<Rightarrow> private_key \<Rightarrow> bool" where
  "dsa_pair M pub priv =
     (\<forall>num entropy. 0 \<le> num \<longrightarrow> num < 2 ^ 512 \<longrightarrow>
        (\<exists>r s. dsa_sign M (sk_k priv) num entropy = Inr (r, s)
               \<and> dsa_validate M (pk_kx pub, pk_ky pub) r s num = Inr True))"

text \<open>A well-formed keypair: two keyfiles that parse, with corresponding keys.\<close>

definition keypair :: "modules \<Rightarrow> string \<Rightarrow> string \<Rightarrow> bool" where
  "keypair M public_text private_text =
     (\<exists>pub priv. read_public_key M public_text = Inr pub
                \<and> read_private_key M private_text = Inr priv
                \<and> kem_pair M pub priv \<and> dsa_pair M pub priv)"

text \<open>
  The specification's key derivation, stated without the functions of the code.

  The decimal string of a natural number is a non-empty string of the digits 0 to 9,
  without a leading zero unless it is the string \<open>0\<close>, whose value read digit by digit
  from the left is the number. The decimal string of a negative integer is a minus sign
  followed by the decimal string of its magnitude.
\<close>

definition is_digit :: "char \<Rightarrow> bool" where
  "is_digit c = (48 \<le> (of_char c :: nat) \<and> (of_char c :: nat) \<le> 57)"

definition digits_value :: "string \<Rightarrow> nat" where
  "digits_value w = foldl (\<lambda>acc c. 10 * acc + (of_char c - 48)) 0 w"

definition decimal_string_nat :: "nat \<Rightarrow> string \<Rightarrow> bool" where
  "decimal_string_nat n w =
     (w \<noteq> [] \<and> list_all is_digit w \<and> (w = ''0'' \<or> take 1 w \<noteq> ''0'')
      \<and> digits_value w = n)"

definition decimal_string_of :: "int \<Rightarrow> string \<Rightarrow> bool" where
  "decimal_string_of i w =
     (if i < 0
      then (case w of [] \<Rightarrow> False
            | c # v \<Rightarrow> c = CHR ''-'' \<and> decimal_string_nat (nat (- i)) v)
      else decimal_string_nat (nat i) w)"

text \<open>The UTF-8 encoding of a string of ASCII characters: the code of each character.\<close>

definition ascii_bytes :: "string \<Rightarrow> bytes" where
  "ascii_bytes w = map (\<lambda>c. word_of_nat (of_char c)) w"

text \<open>The bytes of \<open>K\<close> at the positions \<open>a\<close> to \<open>b - 1\<close>.\<close>

definition byte_range :: "bytes \<Rightarrow> nat \<Rightarrow> nat \<Rightarrow> bytes" where
  "byte_range K a b = map (\<lambda>i. K ! i) [a ..< b]"

text \<open>
  \<open>K\<close> is the SHA3-512 digest of the UTF-8 encoding of the decimal string \<open>w\<close> of the shared
  point's x-coordinate; the AES key is \<open>K[0..32]\<close> and the initialisation vector is
  \<open>K[32..48]\<close>.
\<close>

definition symmetric_material :: "modules \<Rightarrow> string \<Rightarrow> bytes \<times> bytes" where
  "symmetric_material M w =
     (let K = SHA3_512 M (ascii_bytes w) in (byte_range K 0 32, byte_range K 32 48))"

text \<open>
  The specification's body of an armored blob: a non-empty string over the base64url
  alphabet and the newline.
\<close>

definition base64url_body :: "string \<Rightarrow> bool" where
  "base64url_body body = (body \<noteq> [] \<and> list_all (in_class False body_class) body)"

section \<open>A small instance of the external modules\<close>

text \<open>
  Stand-ins for the missing modules, small enough to run: the group of integers modulo
  101 under addition with generator 3 instead of the curve, a byte-wise shift instead of
  AES, zero bytes as parity symbols, the identity as base64, and a unary encoding of
  integers instead of DER. They serve to run the functions above on concrete keyfiles
  and messages.
\<close>

definition toy_points ::
  "int \<times> int \<Rightarrow> nat \<Rightarrow> error + ((int \<times> int) \<times> (int \<times> int))" where
  "toy_points pub entropy =
     (let u = int entropy mod 101 in Inr ((u * 3 mod 101, 0), (u * fst pub mod 101, 0)))"

definition toy_recover_point :: "int \<times> int \<Rightarrow> int \<Rightarrow> error + (int \<times> int)" where
  "toy_recover_point r k = Inr (k * fst r mod 101, 0)"

definition toy_dsa_sign :: "int \<Rightarrow> int \<Rightarrow> nat \<Rightarrow> error + (int \<times> int)" where
  "toy_dsa_sign k num entropy =
     (let r = int entropy mod 101 in Inr (r, (num + k * 3 * r) mod 101))"

definition toy_dsa_validate :: "int \<times> int \<Rightarrow> int \<Rightarrow> int \<Rightarrow> int \<Rightarrow> error + bool" where
  "toy_dsa_validate pub r s num = Inr (s = (num + fst pub * r) mod 101)"

definition toy_cbc_mode :: "bytes \<Rightarrow> bytes \<Rightarrow> error + cbc_mode" where
  "toy_cbc_mode key iv =
     (if length key = 32 \<and> length iv = 16 then Inr (CBC key iv) else Inl ValueError)"

definition toy_shift :: "cbc_mode \<Rightarrow> byte" where
  "toy_shift mode = (case mode of CBC key iv \<Rightarrow> foldr (+) key 0 + foldr (+) iv 0)"

definition toy_encrypter_feed :: "cbc_mode \<Rightarrow> bytes \<Rightarrow> error + bytes" where
  "toy_encrypter_feed mode data = Inr (map (\<lambda>b. b + toy_shift mode) data)"

definition toy_decrypter_feed :: "cbc_mode \<Rightarrow> bytes \<Rightarrow> error + bytes" where
  "toy_decrypter_feed mode data = Inr (map (\<lambda>b. b - toy_shift mode) data)"

definition toy_rs_encode :: "nat \<Rightarrow> bytes \<Rightarrow> bytes" where
  "toy_rs_encode p b = b @ replicate p 0"

definition toy_rs_decode :: "nat \<Rightarrow> bytes \<Rightarrow> error + bytes" where
  "toy_rs_decode p c = (if length c < p then Inl ExternalError else Inr (take (length c - p) c))"

definition toy_decode_public_key :: "bytes \<Rightarrow> error + public_key" where
  "toy_decode_public_key bs =
     (case bs of
        x # y # rest \<Rightarrow> Inr \<lparr>pk_kx = uint x, pk_ky = uint y, pk_name = rest, pk_email = []\<rparr>
      | _ \<Rightarrow> Inl ExternalError)"

definition toy_decode_private_key :: "bytes \<Rightarrow> error + private_key" where
  "toy_decode_private_key bs =
     (case bs of
        x # rest \<Rightarrow> Inr \<lparr>sk_k = uint x, sk_name = rest, sk_email = []\<rparr>
      | _ \<Rightarrow> Inl ExternalError)"

text \<open>An integer is a sign byte, its magnitude in unary and a zero byte.\<close>

definition toy_encode_int :: "int \<Rightarrow> bytes" where
  "toy_encode_int i = (if i < 0 then 1 else 0) # replicate (nat \<bar>i\<bar>) 1 @ [0]"

definition toy_decode_int :: "bytes \<Rightarrow> (int \<times> bytes) option" where
  "toy_decode_int bs =
     (case bs of
        [] \<Rightarrow> None
      | sign # tail \<Rightarrow>
          (case dropWhile (\<lambda>b. b = 1) tail of
             [] \<Rightarrow> None
           | z # rest \<Rightarrow>
               let n = int (length (takeWhile (\<lambda>b. b = 1) tail))
               in Some (if sign = 1 then - n else n, rest)))"

definition toy_encode_message :: "envelope \<Rightarrow> bytes" where
  "toy_encode_message e =
     concat (map toy_encode_int (env_key e @ env_signature e)) @ env_message e"

definition toy_decode_message :: "bytes \<Rightarrow> error + envelope" where
  "toy_decode_message bs =
     (case toy_decode_int bs of None \<Rightarrow> Inl ExternalError | Some (rx, b1) \<Rightarrow>
      case toy_decode_int b1 of None \<Rightarrow> Inl ExternalError | Some (ry, b2) \<Rightarrow>
      case toy_decode_int b2 of None \<Rightarrow> Inl ExternalError | Some (r, b3) \<Rightarrow>
      case toy_decode_int b3 of None \<Rightarrow> Inl ExternalError | Some (s, b4) \<Rightarrow>
        Inr \<lparr>env_message = b4, env_key = [rx, ry], env_signature = [r, s]\<rparr>)"

definition toy_modules :: modules where
  "toy_modules =
     \<lparr>SHA3_512 = (\<lambda>b. toy_shake b 64),
      SHA3_512_None = Inl TypeError,
      SHAKE256 = toy_shake,
      ecies_points = toy_points,
      ecies_recover_point = toy_recover_point,
      dsa_sign = toy_dsa_sign,
      dsa_validate = toy_dsa_validate,
      AESModeOfOperationCBC = toy_cbc_mode,
      encrypter_feed = toy_encrypter_feed,
      decrypter_feed = toy_decrypter_feed,
      rs_encode = toy_rs_encode,
      rs_decode = toy_rs_decode,
      urlsafe_b64decode = Inr,
      der_decode_public_key = toy_decode_public_key,
      der_decode_private_key = toy_decode_private_key,
      der_decode_message = toy_decode_message,
      der_encode_message = toy_encode_message\<rparr>"

text \<open>
  Two keypairs of the small group: the private scalars 56 and 50 with the public points
  \<open>3 * 56 mod 101 = 67\<close> and \<open>3 * 50 mod 101 = 49\<close>. The public bodies are the two
  coordinate bytes (\<open>C\<close> is 67, \<open>1\<close> is 49; the second coordinate is not used) followed by
  30 parity symbols; the private bodies are the scalar byte (\<open>8\<close> is 56, \<open>2\<close> is 50) and
  a one-letter name.
\<close>

definition alice_public :: string where
  "alice_public = ''----- BEGIN FINCRYPT PUBLIC KEY -----'' @ [newline]
     @ ''CH'' @ replicate 30 CHR ''A'' @ [newline]
     @ ''----- END FINCRYPT PUBLIC KEY -----''"

definition alice_private :: string where
  "alice_private = ''----- BEGIN FINCRYPT PRIVATE KEY -----'' @ [newline]
     @ ''8A'' @ [newline]
     @ ''----- END FINCRYPT PRIVATE KEY -----''"

definition bob_public :: string where
  "bob_public = ''----- BEGIN FINCRYPT PUBLIC KEY -----'' @ [newline]
     @ ''1H'' @ replicate 30 CHR ''A'' @ [newline]
     @ ''----- END FINCRYPT PUBLIC KEY -----''"

definition bob_private :: string where
  "bob_private = ''----- BEGIN FINCRYPT PRIVATE KEY -----'' @ [newline]
     @ ''2B'' @ [newline]
     @ ''----- END FINCRYPT PRIVATE KEY -----''"


text \<open>
  The same instance with a hash function that accepts \<open>None\<close> and hashes it like the
  empty byte string, and a blob with an empty ciphertext whose signature \<open>[0, 25]\<close> is
  valid for the empty message under the first public key.
\<close>

definition lenient_hash_modules :: modules where
  "lenient_hash_modules = toy_modules\<lparr>SHA3_512_None := Inr (toy_shake [] 64)\<rparr>"

definition signed_empty_message_blob :: bytes where
  "signed_empty_message_blob =
     [0, 1, 0, 0, 0, 0, 0] @ (0 # replicate 25 1 @ [0]) @ replicate 8 0"

section \<open>Results and exceptions\<close>

lemma bind_err_simps [simp]:
  "bind_err (Inl e) f = Inl e"
  "bind_err (Inr v) f = f v"
  by (simp_all add: bind_err_def)

lemma bind_err_Inr_iff:
  "bind_err r f = Inr y \<longleftrightarrow> (\<exists>v. r = Inr v \<and> f v = Inr y)"
  by (cases r) simp_all

section \<open>Properties of get\_blocks\<close>

lemma block_num_weights:
  "foldl (\<lambda>acc (i, char). acc + uint char * 256 ^ i) a (enumerate n xs)
     = a + 256 ^ n * foldr (\<lambda>(c::byte) r. uint c + 256 * r) xs 0"
proof (induction xs arbitrary: a n)
  case Nil
  show ?case by simp
next
  case (Cons x xs)
  show ?case by (simp add: Cons.IH algebra_simps)
qed

lemma big_endian_int_foldr:
  "foldl (\<lambda>acc b. acc * 256 + uint b) 0 h = foldr (\<lambda>(c::byte) r. uint c + 256 * r) (rev h) 0"
  by (simp add: foldr_conv_foldl algebra_simps)

lemma block_num_big_endian: "block_num h = big_endian_int h"
  by (simp add: block_num_def big_endian_int_def block_num_weights big_endian_int_foldr)

lemma py_range_step_single:
  assumes "0 < n" and "n \<le> step"
  shows "py_range_step n step = [0]"
proof -
  have "(n + step - 1) div step = 1"
    using assms by (simp add: div_nat_eqI)
  then show ?thesis by (simp add: py_range_step_def)
qed

lemma get_blocks_single:
  assumes "0 < length h" and "length h \<le> n"
  shows "get_blocks h (int n) = Inr [big_endian_int h]"
proof -
  have n: "0 < n" using assms by linarith
  have r: "py_range_step (length h) n = [0]"
    using assms by (rule py_range_step_single)
  have t: "take n h = h"
    using assms by simp
  show ?thesis
    using n by (simp add: get_blocks_def r t block_num_big_endian)
qed

text \<open>
  Claim C7. A 64-byte digest passed to \<open>get_blocks\<close> with block size 1024 gives exactly
  one block, and that block is the digest read as one big-endian base-256 integer.
\<close>

theorem get_blocks_digest_single_block:
  "length h = 64 \<Longrightarrow> get_blocks h 1024 = Inr [big_endian_int h]"
  using get_blocks_single [of h 1024] by simp

lemma big_endian_int_example: "big_endian_int (replicate 62 0 @ [1, 2]) = 258"
  by code_simp

theorem get_blocks_digest_single_block_witness:
  "length (replicate 62 (0::byte) @ [1, 2]) = 64
   \<and> get_blocks (replicate 62 0 @ [1, 2]) 1024 = Inr [258]"
  using get_blocks_digest_single_block [of "replicate 62 0 @ [1, 2]"]
  by (simp add: big_endian_int_example)

section \<open>Properties of the OAEP padding\<close>

lemma from_bytes_little_bounds:
  "0 \<le> from_bytes_little bs \<and> from_bytes_little bs < 256 ^ length bs"
proof (induction bs)
  case Nil
  show ?case by (simp add: from_bytes_little_def)
next
  case (Cons b bs)
  have b: "0 \<le> uint b" "uint b < 256"
    using uint_bounded [of b] by simp_all
  from Cons b show ?case
    by (simp add: from_bytes_little_def)
qed

lemma little_digits_length [simp]: "length (little_digits n v) = n"
  by (induction n arbitrary: v) simp_all

lemma from_bytes_little_digits:
  "0 \<le> v \<Longrightarrow> v < 256 ^ n \<Longrightarrow> from_bytes_little (little_digits n v) = v"
proof (induction n arbitrary: v)
  case 0
  then show ?case by (simp add: from_bytes_little_def)
next
  case (Suc n)
  have d: "0 \<le> v div 256" "v div 256 < 256 ^ n"
    using Suc.prems by (simp_all add: div_less_iff_less_mult pos_imp_zdiv_nonneg_iff)
  have "from_bytes_little (little_digits n (v div 256)) = v div 256"
    using Suc.IH [OF d] .
  moreover have "uint (word_of_int (v mod 256) :: byte) = v mod 256"
    by (simp add: uint_word_of_int)
  ultimately show ?case
    by (simp add: from_bytes_little_def)
qed

lemma little_digits_from_bytes:
  "little_digits (length bs) (from_bytes_little bs) = bs"
proof (induction bs)
  case Nil
  show ?case by simp
next
  case (Cons b bs)
  have b: "0 \<le> uint b" "uint b < 256"
    using uint_bounded [of b] by simp_all
  have m: "(uint b + 256 * from_bytes_little bs) mod 256 = uint b"
    using b by (simp add: mod_pos_pos_trivial)
  have dv: "(uint b + 256 * from_bytes_little bs) div 256 = from_bytes_little bs"
    using b by simp
  show ?case
    using Cons m dv by (simp add: from_bytes_little_def)
qed

lemma xor_bounds_256:
  fixes a b :: int
  assumes "0 \<le> a" "a < 256 ^ n" "0 \<le> b" "b < 256 ^ n"
  shows "0 \<le> a XOR b \<and> a XOR b < 256 ^ n"
proof -
  have p: "(256::int) ^ n = 2 ^ (8 * n)"
    by (simp add: power_mult)
  show ?thesis
    using assms XOR_upper [of a "8 * n" b] by (simp add: p)
qed

lemma xor_cancel_int: "(a XOR b) XOR b = (a::int)"
  by (simp add: xor.assoc)

lemma to_bytes_little_ok:
  "0 \<le> v \<Longrightarrow> v < 256 ^ n \<Longrightarrow> to_bytes_little v (int n) = Inr (little_digits n v)"
  by (simp add: to_bytes_little_def)

lemma getrandbits_bounds:
  "0 \<le> getrandbits k e \<and> getrandbits k e < 2 ^ k"
proof -
  have "e mod 2 ^ k < 2 ^ k" by simp
  then have "int (e mod 2 ^ k) < int (2 ^ k)" by (simp only: of_nat_less_iff)
  then show ?thesis by (simp add: getrandbits_def)
qed

lemma getrandbits_fits:
  "getrandbits k e < 256 ^ k"
proof -
  have "(2::int) ^ k \<le> 256 ^ k" by (rule power_mono) simp_all
  then show ?thesis using getrandbits_bounds [of k e] by linarith
qed

lemma xor_swap_cancel: "(h XOR r) XOR h = (r::int)"
  by (simp add: xor.commute xor.left_commute)

lemma oaep_pad_result:
  assumes S: "shake_contract S"
    and r_def: "r = getrandbits a e"
    and rb_def: "rb = little_digits a r"
    and x_def: "x = from_bytes_little (S rb (length msg)) XOR from_bytes_little msg"
    and xb_def: "xb = little_digits (length msg) x"
    and y_def: "y = from_bytes_little (S xb a) XOR r"
  shows "oaep_pad S e msg a = Inr (xb @ little_digits a y)"
    and "0 \<le> x \<and> x < 256 ^ length msg"
    and "0 \<le> y \<and> y < 256 ^ a"
    and "0 \<le> r \<and> r < 256 ^ a"
proof -
  have len: "\<And>d n. length (S d n) = n"
    using S by (simp add: shake_contract_def)
  show r: "0 \<le> r \<and> r < 256 ^ a"
    using getrandbits_bounds [of a e] getrandbits_fits [of a e] by (simp add: r_def)
  have hx: "0 \<le> from_bytes_little (S rb (length msg))
            \<and> from_bytes_little (S rb (length msg)) < 256 ^ length msg"
    using from_bytes_little_bounds [of "S rb (length msg)"] by (simp add: len)
  show x: "0 \<le> x \<and> x < 256 ^ length msg"
    unfolding x_def using hx from_bytes_little_bounds [of msg]
    by (intro xor_bounds_256) simp_all
  have hy: "0 \<le> from_bytes_little (S xb a) \<and> from_bytes_little (S xb a) < 256 ^ a"
    using from_bytes_little_bounds [of "S xb a"] by (simp add: len)
  show y: "0 \<le> y \<and> y < 256 ^ a"
    unfolding y_def using hy r by (intro xor_bounds_256) simp_all
  have t1: "to_bytes_little r (int a) = Inr rb"
    using r by (simp add: to_bytes_little_ok rb_def)
  have t2: "to_bytes_little x (int (length msg)) = Inr xb"
    using x by (simp add: to_bytes_little_ok xb_def)
  have t3: "to_bytes_little y (int a) = Inr (little_digits a y)"
    using y by (simp add: to_bytes_little_ok)
  show "oaep_pad S e msg a = Inr (xb @ little_digits a y)"
    unfolding oaep_pad_def Let_def
    by (simp add: bind_err_def r_def [symmetric] t1 x_def [symmetric] t2 y_def [symmetric] t3)
qed

lemma oaep_unpad_of_pad:
  assumes S: "shake_contract S" and a: "0 < a"
  shows "\<exists>p. oaep_pad S e msg a = Inr p \<and> length p = length msg + a
             \<and> oaep_unpad S p a = Inr msg"
proof -
  define r where "r = getrandbits a e"
  define rb where "rb = little_digits a r"
  define x where "x = from_bytes_little (S rb (length msg)) XOR from_bytes_little msg"
  define xb where "xb = little_digits (length msg) x"
  define y where "y = from_bytes_little (S xb a) XOR r"
  define p where "p = xb @ little_digits a y"
  note R = oaep_pad_result [OF S r_def rb_def x_def xb_def y_def]
  have pad: "oaep_pad S e msg a = Inr p" using R(1) by (simp add: p_def)
  have lp: "length p = length msg + a" by (simp add: p_def xb_def)
  have s1: "slice_to_neg p a = xb"
    using a by (simp add: slice_to_neg_def p_def xb_def)
  have s2: "slice_from_neg p a = little_digits a y"
    using a by (simp add: slice_from_neg_def p_def xb_def)
  have fx: "from_bytes_little xb = x"
    using R(2) by (simp add: xb_def from_bytes_little_digits)
  have fy: "from_bytes_little (little_digits a y) = y"
    using R(3) by (simp add: from_bytes_little_digits)
  have fr: "from_bytes_little rb = r"
    using R(4) by (simp add: rb_def from_bytes_little_digits)
  have t2: "to_bytes_little x (int (length msg)) = Inr xb"
    using R(2) by (simp add: to_bytes_little_ok xb_def)
  have yr: "y XOR from_bytes_little (S xb a) = r"
    by (simp add: y_def xor_swap_cancel)
  have t1: "to_bytes_little r (int a) = Inr rb"
    using R(4) by (simp add: to_bytes_little_ok rb_def)
  have xm: "x XOR from_bytes_little (S rb (length msg)) = from_bytes_little msg"
    by (simp only: x_def xor_swap_cancel)
  have t3: "to_bytes_little (from_bytes_little msg) (int (length msg)) = Inr msg"
    using from_bytes_little_bounds [of msg]
    by (simp add: to_bytes_little_ok little_digits_from_bytes)
  have "oaep_unpad S p a = Inr msg"
    unfolding oaep_unpad_def Let_def
    by (simp add: lp s1 s2 fx fy bind_err_def t2 yr t1 xm t3)
  with pad lp show ?thesis by blast
qed

text \<open>
  Claim C2. For every message \<open>m\<close> and every nonce \<open>oaep_pad\<close> can draw (every value of
  the entropy), padding with \<open>append_length = 32\<close> succeeds, the padded block is exactly
  32 bytes longer than \<open>m\<close>, and \<open>oaep_unpad\<close> returns \<open>m\<close>.
\<close>

theorem oaep_roundtrip:
  "shake_contract shake \<Longrightarrow>
     \<exists>padded. oaep_pad shake entropy m 32 = Inr padded
       \<and> length padded = length m + 32
       \<and> oaep_unpad shake padded 32 = Inr m"
  using oaep_unpad_of_pad [of shake 32 entropy m] by simp

lemma toy_shake_contract: "shake_contract toy_shake"
  by (simp add: shake_contract_def toy_shake_def)

theorem oaep_roundtrip_witness:
  "shake_contract toy_shake \<and>
     (\<exists>padded. oaep_pad toy_shake 123456789 [1, 2, 3] 32 = Inr padded
       \<and> length padded = 35
       \<and> oaep_unpad toy_shake padded 32 = Inr [1, 2, 3])"
  using oaep_roundtrip [OF toy_shake_contract, of 123456789 "[1, 2, 3]"]
  by (simp add: toy_shake_contract)

lemma oaep_unpad_short:
  "length d < a \<Longrightarrow> oaep_unpad S d a = Inl ValueError"
  by (simp add: oaep_unpad_def Let_def to_bytes_little_def bind_err_def)

lemma oaep_unpad_total:
  assumes S: "shake_contract S" and a: "0 < a" and d: "a \<le> length d"
  shows "\<exists>m. oaep_unpad S d a = Inr m \<and> length m = length d - a"
proof -
  have len: "\<And>d n. length (S d n) = n"
    using S by (simp add: shake_contract_def)
  define L where "L = length d - a"
  define x where "x = from_bytes_little (slice_to_neg d a)"
  define y where "y = from_bytes_little (slice_from_neg d a)"
  define xb where "xb = little_digits L x"
  define r where "r = y XOR from_bytes_little (S xb a)"
  define rb where "rb = little_digits a r"
  define msg where "msg = x XOR from_bytes_little (S rb L)"
  have iL: "int (length d) - int a = int L"
    using d by (simp add: L_def)
  have x: "0 \<le> x \<and> x < 256 ^ L"
    using from_bytes_little_bounds [of "slice_to_neg d a"] a d
    by (simp add: x_def slice_to_neg_def L_def)
  have y: "0 \<le> y \<and> y < 256 ^ a"
    using from_bytes_little_bounds [of "slice_from_neg d a"] a d
    by (simp add: y_def slice_from_neg_def)
  have hy: "0 \<le> from_bytes_little (S xb a) \<and> from_bytes_little (S xb a) < 256 ^ a"
    using from_bytes_little_bounds [of "S xb a"] by (simp add: len)
  have r: "0 \<le> r \<and> r < 256 ^ a"
    unfolding r_def using y hy by (intro xor_bounds_256) simp_all
  have hx: "0 \<le> from_bytes_little (S rb L) \<and> from_bytes_little (S rb L) < 256 ^ L"
    using from_bytes_little_bounds [of "S rb L"] by (simp add: len)
  have m: "0 \<le> msg \<and> msg < 256 ^ L"
    unfolding msg_def using x hx by (intro xor_bounds_256) simp_all
  have t1: "to_bytes_little x (int L) = Inr xb"
    using x by (simp add: to_bytes_little_ok xb_def)
  have t2: "to_bytes_little r (int a) = Inr rb"
    using r by (simp add: to_bytes_little_ok rb_def)
  have t3: "to_bytes_little msg (int L) = Inr (little_digits L msg)"
    using m by (simp add: to_bytes_little_ok)
  have "oaep_unpad S d a = Inr (little_digits L msg)"
    unfolding oaep_unpad_def Let_def iL
    by (simp add: x_def [symmetric] y_def [symmetric] bind_err_def t1 r_def [symmetric] t2
                  msg_def [symmetric] t3)
  then show ?thesis by (simp add: L_def)
qed

text \<open>
  Claim C10. With \<open>append_length = 32\<close>, \<open>oaep_unpad\<close> returns \<open>len(data) - 32\<close> bytes on
  every input of at least 32 bytes (the empty byte string for exactly 32 bytes) and
  raises on every shorter input.
\<close>

theorem oaep_unpad_total_32:
  "shake_contract shake \<Longrightarrow>
     (32 \<le> length d \<longrightarrow>
        (\<exists>m. oaep_unpad shake d 32 = Inr m \<and> length m = length d - 32))
     \<and> (length d = 32 \<longrightarrow> oaep_unpad shake d 32 = Inr [])
     \<and> (length d < 32 \<longrightarrow> (\<exists>e. oaep_unpad shake d 32 = Inl e))"
  using oaep_unpad_total [of shake 32 d] oaep_unpad_short [of d 32 shake]
  by auto


theorem oaep_unpad_total_32_witness:
  "shake_contract toy_shake
   \<and> (32::nat) \<le> length (replicate 32 (5::byte))
   \<and> oaep_unpad toy_shake (replicate 32 5) 32 = Inr []
   \<and> length [1::byte] < 32
   \<and> (\<exists>e. oaep_unpad toy_shake [1] 32 = Inl e)"
  using oaep_unpad_total_32 [OF toy_shake_contract, of "replicate 32 5"]
        oaep_unpad_total_32 [OF toy_shake_contract, of "[1]"]
  by (simp add: toy_shake_contract)

lemma oaep_pad_entropy_mod:
  "oaep_pad S (e mod 2 ^ a) m a = oaep_pad S e m a"
  by (simp add: oaep_pad_def getrandbits_def)

text \<open>
  Claim C5. The nonce of \<open>oaep_pad\<close> with \<open>append_length = 32\<close> is
  \<open>getrandbits(32)\<close>: it lies in \<open>[0, 2^32)\<close> and not in the full range \<open>[0, 2^256)\<close> of
  32-byte values. The padded block depends on 32 bits of the entropy only.
\<close>

theorem oaep_pad_nonce_is_32_bits:
  "0 \<le> getrandbits 32 entropy \<and> getrandbits 32 entropy < 2 ^ 32
   \<and> oaep_pad shake entropy m 32 = oaep_pad shake (entropy mod 2 ^ 32) m 32"
  using getrandbits_bounds [of 32 entropy] oaep_pad_entropy_mod [of shake entropy 32 m]
  by simp
section \<open>Properties of strip\_headers\<close>

lemma strip_headers_example:
  "strip_headers (''- BEGIN FINCRYPT MESSAGE -'' @ [newline] @ ''ab!'' @ [newline]
                  @ ''- END FINCRYPT MESSAGE -'')
     = (Some ''BEGIN FINCRYPT MESSAGE'', Some ''ab!'')"
  by code_simp

text \<open>
  Claim C8. \<open>strip_headers\<close> accepts a text whose body ends in a character outside the
  base64url alphabet: the last character of the body is matched by \<open>[^\n]\<close>, which admits
  every character but the newline. Here the body \<open>ab!\<close> is returned with the header.
\<close>

theorem strip_headers_body_outside_alphabet:
  "strip_headers (''- BEGIN FINCRYPT MESSAGE -'' @ [newline] @ ''ab!'' @ [newline]
                  @ ''- END FINCRYPT MESSAGE -'')
     = (Some ''BEGIN FINCRYPT MESSAGE'', Some ''ab!'')
   \<and> \<not> base64url_body ''ab!''"
proof -
  have "\<not> base64url_body ''ab!''"
    by (simp add: base64url_body_def in_class_def body_class_def newline_def)
  then show ?thesis
    using strip_headers_example by simp
qed

section \<open>The shape of an accepted body\<close>

lemma rmatch_keeps_other_groups:
  "(caps', s') \<in> set (rmatch r (caps, s)) \<Longrightarrow> n \<notin> groups r \<Longrightarrow> caps' n = caps n"
proof (induction r "(caps, s)" arbitrary: caps s caps' s' rule: rmatch.induct)
  case (1 l caps s)
  then show ?case by (simp split: if_splits)
next
  case (2 negated items caps s)
  then show ?case by (cases s) (auto split: if_splits)
next
  case (3 r1 r2 caps s)
  from "3.prems" obtain c1 s1 where a: "(c1, s1) \<in> set (rmatch r1 (caps, s))"
    and b: "(caps', s') \<in> set (rmatch r2 (c1, s1))"
    by auto
  have "c1 n = caps n" using "3.hyps"(1) [OF a] "3.prems"(2) by simp
  moreover have "caps' n = c1 n" using "3.hyps"(2) [OF a b] "3.prems"(2) by simp
  ultimately show ?case by simp
next
  case (4 r1 r2 caps s)
  then show ?case by auto
next
  case (5 r caps s)
  then show ?case by auto
next
  case (6 r caps s)
  have step: "rmatch (Plus r) (caps, s) = concat (map (\<lambda>(caps', s').
                    (if length s' < length s then rmatch (Plus r) (caps', s') else [])
                    @ [(caps', s')])
                 (rmatch r (caps, s)))"
    by (rule rmatch.simps(6))
  from "6.prems"(1) have "(caps', s') \<in> set (concat (map (\<lambda>(caps', s').
                    (if length s' < length s then rmatch (Plus r) (caps', s') else [])
                    @ [(caps', s')])
                 (rmatch r (caps, s))))"
    by (simp only: step)
  then obtain c1 s1 where a: "(c1, s1) \<in> set (rmatch r (caps, s))"
    and b: "(length s1 < length s \<and> (caps', s') \<in> set (rmatch (Plus r) (c1, s1)))
            \<or> (caps', s') = (c1, s1)"
    by (auto simp del: rmatch.simps split: if_splits)
  have c1: "c1 n = caps n"
    using "6.hyps"(1) [OF a] "6.prems"(2) by (auto simp del: rmatch.simps)
  from b show ?case
  proof
    assume "length s1 < length s \<and> (caps', s') \<in> set (rmatch (Plus r) (c1, s1))"
    then have "caps' n = c1 n"
      using "6.hyps"(2) [OF a] "6.prems"(2) by (auto simp del: rmatch.simps)
    with c1 show ?thesis by simp
  next
    assume "(caps', s') = (c1, s1)"
    with c1 show ?thesis by simp
  qed
next
  case (7 m r caps s)
  from "7.prems"(1) obtain c1 where a: "(c1, s') \<in> set (rmatch r (caps, s))"
    and b: "caps' = c1(m \<mapsto> take (length s - length s') s)"
    by auto
  have "c1 n = caps n" using "7.hyps" [OF a] "7.prems"(2) by simp
  then show ?case using b "7.prems"(2) by simp
qed

lemma rmatch_plus_class_cons:
  "rmatch (Plus (Class negated items)) (caps, a # t)
     = (if in_class negated items a
        then rmatch (Plus (Class negated items)) (caps, t) @ [(caps, t)] else [])"
  by (subst rmatch.simps(6)) (simp del: rmatch.simps(6))

lemma rmatch_plus_class_nil:
  "rmatch (Plus (Class negated items)) (caps, []) = []"
  by (subst rmatch.simps(6)) (simp del: rmatch.simps(6))

lemma rmatch_plus_class:
  "(caps', s') \<in> set (rmatch (Plus (Class negated items)) (caps, s)) \<Longrightarrow>
     \<exists>xs. xs \<noteq> [] \<and> s = xs @ s' \<and> list_all (in_class negated items) xs"
proof (induction s arbitrary: caps' s')
  case Nil
  then show ?case by (simp only: rmatch_plus_class_nil) simp
next
  case (Cons a t)
  show ?case
  proof (cases "in_class negated items a")
    case False
    with Cons.prems show ?thesis by (simp only: rmatch_plus_class_cons) simp
  next
    case True
    with Cons.prems have "(caps', s') \<in> set (rmatch (Plus (Class negated items)) (caps, t)
                                        @ [(caps, t)])"
      by (simp only: rmatch_plus_class_cons if_True)
    then have "(caps', s') \<in> set (rmatch (Plus (Class negated items)) (caps, t))
                          \<or> s' = t"
      by (auto simp del: rmatch.simps)
    then show ?thesis
    proof
      assume "(caps', s') \<in> set (rmatch (Plus (Class negated items)) (caps, t))"
      then obtain xs where "xs \<noteq> []" "t = xs @ s'" "list_all (in_class negated items) xs"
        using Cons.IH by blast
      then have "a # xs \<noteq> [] \<and> a # t = (a # xs) @ s'
                 \<and> list_all (in_class negated items) (a # xs)"
        using True by simp
      then show ?thesis by blast
    next
      assume "s' = t"
      then have "[a] \<noteq> [] \<and> a # t = [a] @ s' \<and> list_all (in_class negated items) [a]"
        using True by simp
      then show ?thesis by blast
    qed
  qed
qed

lemma body_pattern_capture:
  assumes "(caps', s') \<in> set (rmatch body_pattern (caps, s))"
  shows "\<exists>xs c. xs \<noteq> [] \<and> list_all (in_class False body_class) xs \<and> c \<noteq> newline
               \<and> caps' 2 = Some (xs @ [c])"
proof -
  from assms have "(caps', s') \<in> set (map (\<lambda>(caps', s'). (caps'(2 \<mapsto> take (length s - length s') s), s'))
         (rmatch (Seq (Plus (Class False body_class)) (Class True [Single newline])) (caps, s)))"
    by (simp only: body_pattern_def rmatch.simps(7))
  then obtain c1 where a: "(c1, s') \<in> set (rmatch (Seq (Plus (Class False body_class))
                                      (Class True [Single newline])) (caps, s))"
    and b: "caps' = c1(2 \<mapsto> take (length s - length s') s)"
    by (auto simp del: rmatch.simps)
  from a have "(c1, s') \<in> set (concat (map (rmatch (Class True [Single newline]))
                    (rmatch (Plus (Class False body_class)) (caps, s))))"
    by (simp only: rmatch.simps(3))
  then obtain c2 s2 where p: "(c2, s2) \<in> set (rmatch (Plus (Class False body_class)) (caps, s))"
    and l: "(c1, s') \<in> set (rmatch (Class True [Single newline]) (c2, s2))"
    by (auto simp del: rmatch.simps)
  from l obtain c where s2: "s2 = c # s'" and c: "c \<noteq> newline"
    by (cases s2) (auto simp add: in_class_def split: if_splits)
  from p obtain xs where xs: "xs \<noteq> []" "s = xs @ s2" "list_all (in_class False body_class) xs"
    using rmatch_plus_class by blast
  have "take (length s - length s') s = xs @ [c]"
    using xs(2) s2 by simp
  with b xs c show ?thesis by auto
qed

lemma groups_footer: "2 \<notin> groups footer_pattern"
  by (simp add: footer_pattern_def label_tail_def dashes_def)

text \<open>
  What \<open>strip_headers\<close> does guarantee: the body it returns is a non-empty string over
  the base64url alphabet and the newline, followed by one more character that is not a
  newline. Only that last character can lie outside the alphabet.
\<close>

lemma strip_headers_body_shape:
  assumes "strip_headers pem_text = (Some header, Some body)"
  shows "\<exists>xs c. body = xs @ [c] \<and> xs \<noteq> [] \<and> list_all (in_class False body_class) xs
               \<and> c \<noteq> newline"
proof -
  from assms obtain caps rest other
    where m: "rmatch pem_pattern (Map.empty, pem_text) = (caps, rest) # other"
      and b: "caps 2 = Some body"
    by (auto simp add: strip_headers_def re_match_def split: list.splits option.splits)
  have "(caps, rest) \<in> set (rmatch pem_pattern (Map.empty, pem_text))"
    by (simp add: m)
  then have "(caps, rest) \<in> set (concat (map (rmatch (Seq body_pattern footer_pattern))
                  (rmatch header_pattern (Map.empty, pem_text))))"
    by (simp only: pem_pattern_def rmatch.simps(3))
  then obtain c1 s1
    where "(c1, s1) \<in> set (rmatch header_pattern (Map.empty, pem_text))"
      and "(caps, rest) \<in> set (rmatch (Seq body_pattern footer_pattern) (c1, s1))"
    by (auto simp del: rmatch.simps)
  then have "(caps, rest) \<in> set (concat (map (rmatch footer_pattern)
                  (rmatch body_pattern (c1, s1))))"
    by (simp only: rmatch.simps(3))
  then obtain c2 s2
    where bd: "(c2, s2) \<in> set (rmatch body_pattern (c1, s1))"
      and ft: "(caps, rest) \<in> set (rmatch footer_pattern (c2, s2))"
    by (auto simp del: rmatch.simps)
  from bd obtain xs c where xs: "xs \<noteq> []" "list_all (in_class False body_class) xs"
    "c \<noteq> newline" "c2 2 = Some (xs @ [c])"
    using body_pattern_capture by blast
  have "caps 2 = c2 2"
    using ft groups_footer by (rule rmatch_keeps_other_groups)
  with b xs show ?thesis by auto
qed

section \<open>Properties of the keyfile readers\<close>

text \<open>
  Claim C9. \<open>read_public_key\<close> succeeds exactly when the body is base64-decoded, the
  decoded bytes are Reed-Solomon decoded with 30 parity symbols, and the decoded frame is
  DER-decoded. \<open>read_private_key\<close> succeeds exactly when the body is base64-decoded and
  the decoded bytes themselves are DER-decoded; it does not depend on the Reed-Solomon
  decoder at all.
\<close>

theorem keyfile_framing_asymmetric:
  "(read_public_key M key_text = Inr pub \<longleftrightarrow>
      (\<exists>body raw frame.
         strip_headers key_text = (Some ''BEGIN FINCRYPT PUBLIC KEY'', Some body)
         \<and> urlsafe_b64decode M (encode_utf8 body) = Inr raw
         \<and> rs_decode M 30 raw = Inr frame
         \<and> der_decode_public_key M frame = Inr pub))
   \<and> (read_private_key M key_text = Inr priv \<longleftrightarrow>
      (\<exists>body raw.
         strip_headers key_text = (Some ''BEGIN FINCRYPT PRIVATE KEY'', Some body)
         \<and> urlsafe_b64decode M (encode_utf8 body) = Inr raw
         \<and> der_decode_private_key M raw = Inr priv))
   \<and> read_private_key (M\<lparr>rs_decode := rs\<rparr>) key_text = read_private_key M key_text"
proof (intro conjI)
  show "read_public_key M key_text = Inr pub \<longleftrightarrow>
      (\<exists>body raw frame.
         strip_headers key_text = (Some ''BEGIN FINCRYPT PUBLIC KEY'', Some body)
         \<and> urlsafe_b64decode M (encode_utf8 body) = Inr raw
         \<and> rs_decode M 30 raw = Inr frame
         \<and> der_decode_public_key M frame = Inr pub)"
    by (cases "strip_headers key_text")
       (auto simp add: read_public_key_def bind_err_Inr_iff split: option.splits)
  show "read_private_key M key_text = Inr priv \<longleftrightarrow>
      (\<exists>body raw.
         strip_headers key_text = (Some ''BEGIN FINCRYPT PRIVATE KEY'', Some body)
         \<and> urlsafe_b64decode M (encode_utf8 body) = Inr raw
         \<and> der_decode_private_key M raw = Inr priv)"
    by (cases "strip_headers key_text")
       (auto simp add: read_private_key_def bind_err_Inr_iff split: option.splits)
  show "read_private_key (M\<lparr>rs_decode := rs\<rparr>) key_text = read_private_key M key_text"
    by (cases "strip_headers key_text")
       (simp add: read_private_key_def split: option.splits)
qed

section \<open>The keyfiles of the small instance\<close>

lemma strip_alice_public:
  "strip_headers alice_public = (Some ''BEGIN FINCRYPT PUBLIC KEY'', Some (''CH'' @ replicate 30 CHR ''A''))"
  by code_simp

lemma strip_alice_private:
  "strip_headers alice_private = (Some ''BEGIN FINCRYPT PRIVATE KEY'', Some ''8A'')"
  by code_simp

lemma strip_bob_public:
  "strip_headers bob_public = (Some ''BEGIN FINCRYPT PUBLIC KEY'', Some (''1H'' @ replicate 30 CHR ''A''))"
  by code_simp

lemma strip_bob_private:
  "strip_headers bob_private = (Some ''BEGIN FINCRYPT PRIVATE KEY'', Some ''2B'')"
  by code_simp

lemma read_alice_public:
  "read_public_key toy_modules alice_public
     = Inr \<lparr>pk_kx = 67, pk_ky = 72, pk_name = [], pk_email = []\<rparr>"
  by code_simp

lemma read_alice_private:
  "read_private_key toy_modules alice_private
     = Inr \<lparr>sk_k = 56, sk_name = [65], sk_email = []\<rparr>"
  by code_simp

lemma read_bob_public:
  "read_public_key toy_modules bob_public
     = Inr \<lparr>pk_kx = 49, pk_ky = 72, pk_name = [], pk_email = []\<rparr>"
  by code_simp

lemma read_bob_private:
  "read_private_key toy_modules bob_private
     = Inr \<lparr>sk_k = 50, sk_name = [66], sk_email = []\<rparr>"
  by code_simp

section \<open>The decimal string of str\<close>

lemma of_char_digit_char: "d < 10 \<Longrightarrow> (of_char (digit_char d) :: nat) = 48 + d"
  by (simp add: digit_char_def)

lemma is_digit_digit_char: "d < 10 \<Longrightarrow> is_digit (digit_char d)"
  by (simp add: is_digit_def of_char_digit_char)

lemma digit_char_of_char: "is_digit c \<Longrightarrow> digit_char (of_char c - 48) = c"
  by (simp add: digit_char_def is_digit_def)

lemma digits_value_snoc:
  "digits_value (v @ [c]) = 10 * digits_value v + (of_char c - 48)"
  by (simp add: digits_value_def)

lemma decimal_nonempty: "decimal n \<noteq> []"
  by (subst decimal.simps) simp

lemma decimal_is_decimal_string: "decimal_string_nat n (decimal n)"
proof (induction n rule: decimal.induct)
  case (1 n)
  show ?case
  proof (cases "n < 10")
    case True
    then have d: "decimal n = [digit_char n]"
      by (subst decimal.simps) simp
    have z: "digit_char n = CHR ''0'' \<longleftrightarrow> n = 0"
    proof
      assume "digit_char n = CHR ''0''"
      then have "(of_char (digit_char n) :: nat) = of_char CHR ''0''" by simp
      then show "n = 0" using True by (simp add: of_char_digit_char)
    next
      assume "n = 0"
      then show "digit_char n = CHR ''0''"
        by (simp only: digit_char_def add_0_right char_of_char)
    qed
    show ?thesis
      using True z
      by (auto simp add: decimal_string_nat_def d is_digit_digit_char digits_value_def
                         of_char_digit_char)
  next
    case False
    then have d: "decimal n = decimal (n div 10) @ [digit_char (n mod 10)]"
      by (subst decimal.simps) simp
    from 1 False have IH: "decimal_string_nat (n div 10) (decimal (n div 10))"
      by simp
    have ne: "decimal (n div 10) \<noteq> []" by (rule decimal_nonempty)
    have nz: "decimal (n div 10) \<noteq> ''0''"
    proof
      assume "decimal (n div 10) = ''0''"
      with IH have "n div 10 = 0"
        by (simp add: decimal_string_nat_def digits_value_def)
      with False show False by simp
    qed
    have lead: "take 1 (decimal n) \<noteq> ''0''"
      using IH ne nz by (cases "decimal (n div 10)") (auto simp add: d decimal_string_nat_def)
    have val: "digits_value (decimal n) = n"
      using IH by (simp add: d digits_value_snoc decimal_string_nat_def of_char_digit_char)
    have dig: "list_all is_digit (decimal n)"
      using IH by (simp add: d decimal_string_nat_def is_digit_digit_char)
    show ?thesis
      using lead val dig by (simp add: decimal_string_nat_def d)
  qed
qed

lemma str_int_is_decimal_string: "decimal_string_of i (str_int i)"
  by (simp add: decimal_string_of_def str_int_def decimal_is_decimal_string)

lemma digits_value_foldl_ge:
  "(acc::nat) \<le> foldl (\<lambda>acc c. 10 * acc + (of_char c - 48)) acc (u :: string)"
proof (induction u arbitrary: acc)
  case Nil
  show ?case by simp
next
  case (Cons c u)
  have "acc \<le> 10 * acc + (of_char c - 48)" by simp
  also have "\<dots> \<le> foldl (\<lambda>acc c. 10 * acc + (of_char c - 48)) (10 * acc + (of_char c - 48)) u"
    by (rule Cons.IH)
  finally show ?case by simp
qed

lemma digits_value_positive:
  assumes "v \<noteq> []" and "list_all is_digit v" and "take 1 v \<noteq> ''0''"
  shows "0 < digits_value v"
proof -
  obtain a u where v: "v = a # u" using assms(1) by (cases v) auto
  have "is_digit a" and "a \<noteq> CHR ''0''"
    using assms v by simp_all
  then have "(of_char a :: nat) \<noteq> 48"
    by (metis digit_char_of_char cancel_comm_monoid_add_class.diff_cancel digit_char_def
              add.right_neutral char_of_char of_char_eq_iff)
  then have "1 \<le> (of_char a :: nat) - 48"
    using \<open>is_digit a\<close> unfolding is_digit_def by linarith
  also have "\<dots> \<le> foldl (\<lambda>acc c. 10 * acc + (of_char c - 48)) (of_char a - 48) u"
    by (rule digits_value_foldl_ge)
  finally show ?thesis
    by (simp add: v digits_value_def)
qed

lemma decimal_string_nat_unique: "decimal_string_nat n w \<Longrightarrow> w = decimal n"
proof (induction w arbitrary: n rule: rev_induct)
  case Nil
  then show ?case by (simp add: decimal_string_nat_def)
next
  case (snoc c v)
  from snoc.prems have c: "is_digit c" and dv: "list_all is_digit v"
    and val: "10 * digits_value v + (of_char c - 48) = n"
    and lead: "v @ [c] = ''0'' \<or> take 1 (v @ [c]) \<noteq> ''0''"
    by (simp_all add: decimal_string_nat_def digits_value_snoc)
  have d: "(of_char c :: nat) - 48 < 10"
    using c by (auto simp add: is_digit_def)
  show ?case
  proof (cases "v = []")
    case True
    then have "n = of_char c - 48" using val by (simp add: digits_value_def)
    then have "decimal n = [digit_char (of_char c - 48)]"
      using d by (subst decimal.simps) simp
    then show ?thesis
      using True c by (simp add: digit_char_of_char)
  next
    case False
    then have l: "take 1 v \<noteq> ''0''"
      using lead by (cases v) auto
    then have "decimal_string_nat (digits_value v) v"
      using False dv by (simp add: decimal_string_nat_def)
    then have v: "v = decimal (digits_value v)"
      by (rule snoc.IH)
    have pos: "0 < digits_value v"
      using False dv l by (rule digits_value_positive)
    have n10: "\<not> n < 10" using pos val by linarith
    have dm: "n div 10 = digits_value v" "n mod 10 = of_char c - 48"
      using val d by auto
    have "decimal n = decimal (n div 10) @ [digit_char (n mod 10)]"
      using n10 by (subst decimal.simps) simp
    then show ?thesis
      using v c by (simp add: dm digit_char_of_char)
  qed
qed

lemma decimal_string_of_unique: "decimal_string_of i w \<Longrightarrow> w = str_int i"
  by (cases "i < 0")
     (auto simp add: decimal_string_of_def str_int_def dest: decimal_string_nat_unique
           split: list.splits)

lemma decimal_ascii: "list_all (\<lambda>c. (of_char c :: nat) < 128) (decimal n)"
proof -
  have "list_all is_digit (decimal n)"
    using decimal_is_decimal_string [of n] by (simp add: decimal_string_nat_def)
  then show ?thesis
    by (auto simp add: list_all_iff is_digit_def)
qed

lemma encode_utf8_ascii:
  "list_all (\<lambda>c. (of_char c :: nat) < 128) w \<Longrightarrow> encode_utf8 w = ascii_bytes w"
  by (induction w) (simp_all add: encode_utf8_def ascii_bytes_def utf8_char_def)

lemma encode_utf8_str_int: "encode_utf8 (str_int i) = ascii_bytes (str_int i)"
  by (rule encode_utf8_ascii) (simp add: str_int_def decimal_ascii)

lemma py_slice_byte_range:
  "b \<le> length K \<Longrightarrow> py_slice a b K = byte_range K a b"
  by (rule nth_equalityI) (auto simp add: py_slice_def byte_range_def)

section \<open>Encryption, signature and the round trip of a message\<close>

lemma big_endian_int_bounds:
  "0 \<le> big_endian_int h \<and> big_endian_int h < 256 ^ length h"
proof -
  have "big_endian_int h = from_bytes_little (rev h)"
    by (simp add: big_endian_int_def big_endian_int_foldr from_bytes_little_def)
  then show ?thesis
    using from_bytes_little_bounds [of "rev h"] by simp
qed

lemma digest_number_bounds:
  assumes "length h = 64"
  shows "0 \<le> big_endian_int h \<and> big_endian_int h < 2 ^ 512"
proof -
  have "(256::int) ^ 64 = 2 ^ 512" by simp
  then show ?thesis
    using big_endian_int_bounds [of h] assms by simp
qed

lemma py_index_simps [simp]:
  "py_index (x # xs) 0 = Inr x"
  "py_index (x # y # xs) (Suc 0) = Inr y"
  by (simp_all add: py_index_def)

lemma key_slices:
  assumes "length key = 64"
  shows "py_slice 0 32 key = take 32 key" and "py_slice 32 48 key = take 16 (drop 32 key)"
    and "length (py_slice 0 32 key) = 32" and "length (py_slice 32 48 key) = 16"
  using assms by (simp_all add: py_slice_def)

lemma key_material_of_code:
  assumes "sha3_contract M"
  shows "py_slice 0 32 (SHA3_512 M (encode_utf8 (str_int sx)))
           = fst (symmetric_material M (str_int sx))"
    and "py_slice 32 48 (SHA3_512 M (encode_utf8 (str_int sx)))
           = snd (symmetric_material M (str_int sx))"
    and "length (fst (symmetric_material M (str_int sx))) = 32"
    and "length (snd (symmetric_material M (str_int sx))) = 16"
proof -
  have l: "length (SHA3_512 M (ascii_bytes (str_int sx))) = 64"
    using assms by (simp add: sha3_contract_def)
  show "py_slice 0 32 (SHA3_512 M (encode_utf8 (str_int sx)))
           = fst (symmetric_material M (str_int sx))"
    by (simp add: symmetric_material_def Let_def encode_utf8_str_int py_slice_byte_range l)
  show "py_slice 32 48 (SHA3_512 M (encode_utf8 (str_int sx)))
           = snd (symmetric_material M (str_int sx))"
    by (simp add: symmetric_material_def Let_def encode_utf8_str_int py_slice_byte_range l)
  show "length (fst (symmetric_material M (str_int sx))) = 32"
    by (simp add: symmetric_material_def Let_def byte_range_def)
  show "length (snd (symmetric_material M (str_int sx))) = 16"
    by (simp add: symmetric_material_def Let_def byte_range_def)
qed

text \<open>
  Claim C6. The x-coordinate of the shared point has a decimal string, and with that
  string \<open>w\<close> both \<open>encrypt_message\<close> and \<open>decrypt_message\<close> build their CBC mode object
  from the key material of the specification: the AES key is bytes 0 to 32 and the
  initialisation vector bytes 32 to 48 of the SHA3-512 digest of the UTF-8 encoding of
  \<open>w\<close>, 48 bytes in all. When the private key recovers the shared point of the exchange,
  both sides use the same key and the same initialisation vector.
\<close>

theorem key_material_both_sides:
  assumes "sha3_contract M"
    and "ecies_points M (kx, ky) kem_entropy = Inr ((rx, ry), S)"
    and "ecies_recover_point M (rx, ry) k = Inr S"
  shows "(\<exists>w. decimal_string_of (fst S) w)
       \<and> (\<forall>w aes_key iv.
            decimal_string_of (fst S) w \<longrightarrow> symmetric_material M w = (aes_key, iv) \<longrightarrow>
              length aes_key = 32 \<and> length iv = 16
            \<and> encrypt_message M kem_entropy oaep_entropy kx ky message
                = bind_err (AESModeOfOperationCBC M aes_key iv) (\<lambda>mode.
                  bind_err (oaep_pad (SHAKE256 M) oaep_entropy message 32) (\<lambda>padded.
                  bind_err (encrypter_feed M mode padded)
                    (\<lambda>ciphertext. Inr ((rx, ry), ciphertext))))
            \<and> decrypt_message M k [rx, ry] ciphertext
                = bind_err (AESModeOfOperationCBC M aes_key iv) (\<lambda>mode.
                  bind_err (decrypter_feed M mode ciphertext)
                    (\<lambda>padded. oaep_unpad (SHAKE256 M) padded 32)))"
proof (intro conjI allI impI)
  show "\<exists>w. decimal_string_of (fst S) w"
    using str_int_is_decimal_string [of "fst S"] by blast
next
  fix w aes_key iv
  assume w: "decimal_string_of (fst S) w" and m: "symmetric_material M w = (aes_key, iv)"
  have ws: "w = str_int (fst S)"
    using w by (rule decimal_string_of_unique)
  note K = key_material_of_code [OF assms(1), of "fst S", folded ws, unfolded m fst_conv snd_conv]
  show "length aes_key = 32" by (rule K(3))
  show "length iv = 16" by (rule K(4))
  have ex: "exchange M (kx, ky) kem_entropy = Inr ((rx, ry), fst S)"
    using assms(2) by (simp add: exchange_def)
  have re: "recover M (rx, ry) k = Inr (fst S)"
    using assms(3) by (simp add: recover_def)
  show "encrypt_message M kem_entropy oaep_entropy kx ky message
          = bind_err (AESModeOfOperationCBC M aes_key iv) (\<lambda>mode.
            bind_err (oaep_pad (SHAKE256 M) oaep_entropy message 32) (\<lambda>padded.
            bind_err (encrypter_feed M mode padded)
              (\<lambda>ciphertext. Inr ((rx, ry), ciphertext))))"
    by (simp add: encrypt_message_def ex Let_def K(1,2) [unfolded ws])
  show "decrypt_message M k [rx, ry] ciphertext
          = bind_err (AESModeOfOperationCBC M aes_key iv) (\<lambda>mode.
            bind_err (decrypter_feed M mode ciphertext)
              (\<lambda>padded. oaep_unpad (SHAKE256 M) padded 32))"
    by (simp add: decrypt_message_def re Let_def K(1,2) [unfolded ws])
qed

lemma encrypt_then_decrypt_message:
  assumes shake: "shake_contract (SHAKE256 M)"
    and sha: "sha3_contract M"
    and aes: "aes_contract M"
    and ex: "exchange M (kx, ky) kem_entropy = Inr (r, s)"
    and re: "recover M r k = Inr s"
  shows "\<exists>c. encrypt_message M kem_entropy oaep_entropy kx ky message = Inr (r, c)
             \<and> decrypt_message M k [fst r, snd r] c = Inr message"
proof -
  define key where "key = SHA3_512 M (encode_utf8 (str_int s))"
  have lk: "length key = 64"
    using sha by (simp add: sha3_contract_def key_def)
  obtain padded where pad: "oaep_pad (SHAKE256 M) oaep_entropy message 32 = Inr padded"
    and unpad: "oaep_unpad (SHAKE256 M) padded 32 = Inr message"
    using oaep_unpad_of_pad [OF shake, of 32 oaep_entropy message] by auto
  obtain mode where mode: "AESModeOfOperationCBC M (py_slice 0 32 key) (py_slice 32 48 key)
                             = Inr mode"
    and feed: "\<forall>d. \<exists>c. encrypter_feed M mode d = Inr c \<and> decrypter_feed M mode c = Inr d"
    using aes key_slices(3,4) [OF lk] unfolding aes_contract_def by blast
  obtain c where enc: "encrypter_feed M mode padded = Inr c"
    and dec: "decrypter_feed M mode c = Inr padded"
    using feed by blast
  have "encrypt_message M kem_entropy oaep_entropy kx ky message = Inr (r, c)"
    by (simp add: encrypt_message_def ex key_def [symmetric] mode pad enc)
  moreover have "decrypt_message M k [fst r, snd r] c = Inr message"
    by (simp add: decrypt_message_def re key_def [symmetric] mode dec unpad)
  ultimately show ?thesis by blast
qed

lemma sign_then_authenticate_message:
  assumes sha: "sha3_contract M"
    and dsa: "dsa_pair M pub priv"
  shows "\<exists>sig. sign_message M dsa_entropy (sk_k priv) message = Inr sig
         \<and> authenticate_message M (pk_kx pub) (pk_ky pub) (Some message) [fst sig, snd sig]
             = Inr True"
proof -
  define h where "h = SHA3_512 M message"
  have lh: "length h = 64"
    using sha by (simp add: sha3_contract_def h_def)
  have blocks: "get_blocks h 1024 = Inr [big_endian_int h]"
    using get_blocks_single [of h 1024] lh by simp
  obtain r s where sg: "dsa_sign M (sk_k priv) (big_endian_int h) dsa_entropy = Inr (r, s)"
    and va: "dsa_validate M (pk_kx pub, pk_ky pub) r s (big_endian_int h) = Inr True"
    using dsa digest_number_bounds [OF lh] unfolding dsa_pair_def by blast
  have "sign_message M dsa_entropy (sk_k priv) message = Inr (r, s)"
    by (simp add: sign_message_def h_def [symmetric] blocks sg)
  moreover have "authenticate_message M (pk_kx pub) (pk_ky pub) (Some message) [r, s] = Inr True"
    by (simp add: authenticate_message_def h_def [symmetric] blocks va)
  ultimately show ?thesis by simp
qed

lemma encrypt_and_sign_then_decrypt_and_verify:
  assumes M: "modules_contract M"
    and A: "keypair M a_public a_private"
    and B: "keypair M b_public b_private"
  shows "\<exists>blob. encrypt_and_sign M entropy m b_public a_private = Inr blob
              \<and> decrypt_and_verify M blob a_public b_private = Inr (Some m, True)"
proof -
  obtain kem_entropy oaep_entropy dsa_entropy
    where entropy: "entropy = (kem_entropy, oaep_entropy, dsa_entropy)"
    by (cases entropy) auto
  from M have shake: "shake_contract (SHAKE256 M)" and sha: "sha3_contract M"
    and aes: "aes_contract M" and rs: "rs_contract M 8" and der: "der_contract M"
    by (simp_all add: modules_contract_def)
  from A obtain a_pub a_priv
    where ra: "read_public_key M a_public = Inr a_pub"
      and rap: "read_private_key M a_private = Inr a_priv"
      and dsa: "dsa_pair M a_pub a_priv"
    unfolding keypair_def by blast
  from B obtain b_pub b_priv
    where rb: "read_public_key M b_public = Inr b_pub"
      and rbp: "read_private_key M b_private = Inr b_priv"
      and kem: "kem_pair M b_pub b_priv"
    unfolding keypair_def by blast
  obtain r s where ex: "exchange M (pk_kx b_pub, pk_ky b_pub) kem_entropy = Inr (r, s)"
    and re: "recover M r (sk_k b_priv) = Inr s"
    using kem unfolding kem_pair_def by blast
  obtain c where enc: "encrypt_message M kem_entropy oaep_entropy (pk_kx b_pub) (pk_ky b_pub) m
                         = Inr (r, c)"
    and dec: "decrypt_message M (sk_k b_priv) [fst r, snd r] c = Inr m"
    using encrypt_then_decrypt_message [OF shake sha aes ex re] by blast
  obtain sig where sg: "sign_message M dsa_entropy (sk_k a_priv) m = Inr sig"
    and au: "authenticate_message M (pk_kx a_pub) (pk_ky a_pub) (Some m) [fst sig, snd sig]
               = Inr True"
    using sign_then_authenticate_message [OF sha dsa] by blast
  define e where "e = \<lparr>env_message = c, env_key = [fst r, snd r],
                        env_signature = [fst sig, snd sig]\<rparr>"
  define blob where "blob = rs_encode M 8 (der_encode_message M e)"
  have out: "encrypt_and_sign M entropy m b_public a_private = Inr blob"
    by (simp add: encrypt_and_sign_def entropy rb rap enc sg e_def blob_def)
  have d1: "rs_decode M 8 blob = Inr (der_encode_message M e)"
    using rs by (simp add: rs_contract_def blob_def)
  have d2: "der_decode_message M (der_encode_message M e) = Inr e"
    using der by (simp add: der_contract_def e_def)
  have "decrypt_and_verify M blob a_public b_private = Inr (Some m, True)"
    by (simp add: decrypt_and_verify_def rbp ra d1 d2 [unfolded e_def] e_def dec au)
  with out show ?thesis by blast
qed

text \<open>
  Claim C1. For two well-formed keypairs A and B and every message \<open>m\<close>, whatever the
  random choices, \<open>encrypt_and_sign\<close> to B signed by A returns a blob, and
  \<open>decrypt_and_verify\<close> of that blob with A's public and B's private key returns
  \<open>(m, True)\<close>.
\<close>

theorem encrypt_and_sign_roundtrip:
  "modules_contract M \<Longrightarrow> keypair M a_public a_private \<Longrightarrow> keypair M b_public b_private \<Longrightarrow>
     \<exists>blob. encrypt_and_sign M entropy m b_public a_private = Inr blob
          \<and> decrypt_and_verify M blob a_public b_private = Inr (Some m, True)"
  by (rule encrypt_and_sign_then_decrypt_and_verify)


section \<open>Properties of decrypt\_and\_verify\<close>

text \<open>
  Claim C4. With keyfiles that parse, a message whose Reed-Solomon decoding or whose DER
  decoding raises makes \<open>decrypt_and_verify\<close> return \<open>(None, False)\<close>; it does not raise.
\<close>

theorem decrypt_and_verify_malformed_message:
  assumes "read_private_key M private_key = Inr decryption_key"
    and "read_public_key M sender_key = Inr sender"
    and "(\<exists>e. rs_decode M 8 message = Inl e)
         \<or> (\<exists>frame e. rs_decode M 8 message = Inr frame \<and> der_decode_message M frame = Inl e)"
  shows "decrypt_and_verify M message sender_key private_key = Inr (None, False)"
  using assms by (auto simp add: decrypt_and_verify_def)



section \<open>The small instance meets the contracts\<close>

lemma toy_sha3_contract: "sha3_contract toy_modules"
  by (simp add: sha3_contract_def toy_modules_def toy_shake_def)

lemma toy_aes_contract: "aes_contract toy_modules"
  by (simp add: aes_contract_def toy_modules_def toy_cbc_mode_def toy_encrypter_feed_def
                toy_decrypter_feed_def o_def)

lemma toy_rs_contract: "rs_contract toy_modules p"
  by (simp add: rs_contract_def toy_modules_def toy_rs_encode_def toy_rs_decode_def)

lemma toy_decode_encode_int:
  "toy_decode_int (toy_encode_int i @ rest) = Some (i, rest)"
proof -
  have t: "takeWhile (\<lambda>b. b = 1) (replicate n (1::byte) @ 0 # rest) = replicate n 1" for n
    by (induction n) simp_all
  have d: "dropWhile (\<lambda>b. b = 1) (replicate n (1::byte) @ 0 # rest) = 0 # rest" for n
    by (induction n) simp_all
  show ?thesis
    by (simp add: toy_decode_int_def toy_encode_int_def t d)
qed

lemma toy_der_contract: "der_contract toy_modules"
  by (simp add: der_contract_def toy_modules_def toy_encode_message_def toy_decode_message_def
                toy_decode_encode_int)

lemma toy_modules_contract: "modules_contract toy_modules"
  using toy_shake_contract toy_sha3_contract toy_aes_contract toy_rs_contract [of 8]
        toy_der_contract
  by (simp add: modules_contract_def toy_modules_def)

lemma scale_mod_101:
  fixes u :: int
  assumes "a * b mod 101 = c mod 101"
  shows "a * (u * b mod 101) mod 101 = u * c mod 101"
proof -
  have "a * (u * b mod 101) mod 101 = (a * (u * b)) mod 101"
    by (simp add: mod_mult_right_eq)
  also have "\<dots> = (u * (a * b)) mod 101"
    by (simp add: mult.left_commute)
  also have "\<dots> = (u * (a * b mod 101)) mod 101"
    by (simp add: mod_mult_right_eq)
  also have "\<dots> = (u * (c mod 101)) mod 101"
    by (simp add: assms)
  also have "\<dots> = u * c mod 101"
    by (simp add: mod_mult_right_eq)
  finally show ?thesis .
qed

lemma shift_mod_101:
  fixes num :: int
  assumes "a mod 101 = c mod 101"
  shows "(num + a * r) mod 101 = (num + c * r) mod 101"
proof -
  have "(a * r) mod 101 = (c * r) mod 101"
    using assms by (rule mod_mult_cong) simp
  then show ?thesis
    by (rule mod_add_cong [OF refl])
qed

lemma toy_kem_alice:
  "kem_pair toy_modules \<lparr>pk_kx = 67, pk_ky = 72, pk_name = [], pk_email = []\<rparr>
                        \<lparr>sk_k = 56, sk_name = [65], sk_email = []\<rparr>"
proof -
  have "56 * (u * 3 mod 101) mod 101 = u * 67 mod (101::int)" for u
    by (rule scale_mod_101) simp
  then show ?thesis
    by (simp add: kem_pair_def exchange_def recover_def toy_modules_def toy_points_def
                  toy_recover_point_def Let_def)
qed

lemma toy_dsa_alice:
  "dsa_pair toy_modules \<lparr>pk_kx = 67, pk_ky = 72, pk_name = [], pk_email = []\<rparr>
                        \<lparr>sk_k = 56, sk_name = [65], sk_email = []\<rparr>"
proof -
  have "(num + 56 * 3 * r) mod 101 = (num + 67 * r) mod (101::int)" for num r
    using shift_mod_101 [of "56 * 3" 67 num r] by simp
  then show ?thesis
    by (simp add: dsa_pair_def toy_modules_def toy_dsa_sign_def toy_dsa_validate_def Let_def)
qed

lemma toy_kem_bob:
  "kem_pair toy_modules \<lparr>pk_kx = 49, pk_ky = 72, pk_name = [], pk_email = []\<rparr>
                        \<lparr>sk_k = 50, sk_name = [66], sk_email = []\<rparr>"
proof -
  have "50 * (u * 3 mod 101) mod 101 = u * 49 mod (101::int)" for u
    by (rule scale_mod_101) simp
  then show ?thesis
    by (simp add: kem_pair_def exchange_def recover_def toy_modules_def toy_points_def
                  toy_recover_point_def Let_def)
qed

lemma toy_dsa_bob:
  "dsa_pair toy_modules \<lparr>pk_kx = 49, pk_ky = 72, pk_name = [], pk_email = []\<rparr>
                        \<lparr>sk_k = 50, sk_name = [66], sk_email = []\<rparr>"
proof -
  have "(num + 50 * 3 * r) mod 101 = (num + 49 * r) mod (101::int)" for num r
    using shift_mod_101 [of "50 * 3" 49 num r] by simp
  then show ?thesis
    by (simp add: dsa_pair_def toy_modules_def toy_dsa_sign_def toy_dsa_validate_def Let_def)
qed

lemma keypair_alice: "keypair toy_modules alice_public alice_private"
  unfolding keypair_def
  using read_alice_public read_alice_private toy_kem_alice toy_dsa_alice by blast

lemma keypair_bob: "keypair toy_modules bob_public bob_private"
  unfolding keypair_def
  using read_bob_public read_bob_private toy_kem_bob toy_dsa_bob by blast

theorem encrypt_and_sign_roundtrip_witness:
  "modules_contract toy_modules
   \<and> keypair toy_modules alice_public alice_private
   \<and> keypair toy_modules bob_public bob_private
   \<and> (\<exists>blob. encrypt_and_sign toy_modules (5, 77, 9) [104, 105] bob_public alice_private
                 = Inr blob
            \<and> decrypt_and_verify toy_modules blob alice_public bob_private
                 = Inr (Some [104, 105], True))"
  using encrypt_and_sign_roundtrip [OF toy_modules_contract keypair_alice keypair_bob,
          of "(5, 77, 9)" "[104, 105]"]
        toy_modules_contract keypair_alice keypair_bob
  by simp

lemma toy_points_example:
  "ecies_points toy_modules (49, 72) 5 = Inr ((15, 0), (43, 0))"
  by (simp add: toy_modules_def toy_points_def)

lemma toy_recover_point_example:
  "ecies_recover_point toy_modules (15, 0) 50 = Inr (43, 0)"
  by (simp add: toy_modules_def toy_recover_point_def)

lemma decimal_string_43: "decimal_string_of 43 ''43''"
  by (simp add: decimal_string_of_def decimal_string_nat_def is_digit_def digits_value_def)

theorem key_material_both_sides_witness:
  "sha3_contract toy_modules
   \<and> ecies_points toy_modules (49, 72) 5 = Inr ((15, 0), (43, 0))
   \<and> ecies_recover_point toy_modules (15, 0) 50 = Inr (43, 0)
   \<and> decimal_string_of 43 ''43''
   \<and> (\<exists>aes_key iv c.
         symmetric_material toy_modules ''43'' = (aes_key, iv)
       \<and> length aes_key = 32 \<and> length iv = 16
       \<and> encrypt_message toy_modules 5 77 49 72 [104, 105] = Inr ((15, 0), c)
       \<and> decrypt_message toy_modules 50 [15, 0] c = Inr [104, 105])"
proof -
  obtain aes_key iv where m: "symmetric_material toy_modules ''43'' = (aes_key, iv)"
    by (cases "symmetric_material toy_modules ''43''") auto
  note T = key_material_both_sides
             [OF toy_sha3_contract toy_points_example toy_recover_point_example,
              THEN conjunct2, rule_format, unfolded fst_conv, OF decimal_string_43 m]
  have l: "length aes_key = 32" "length iv = 16"
    using T [of 77 "[104, 105]" "[]"] by simp_all
  have mode: "AESModeOfOperationCBC toy_modules aes_key iv = Inr (CBC aes_key iv)"
    using l by (simp add: toy_modules_def toy_cbc_mode_def)
  have sh: "SHAKE256 toy_modules = toy_shake"
    by (simp add: toy_modules_def)
  obtain padded where pad: "oaep_pad toy_shake 77 [104, 105] 32 = Inr padded"
    and unpad: "oaep_unpad toy_shake padded 32 = Inr [104, 105]"
    using oaep_unpad_of_pad [OF toy_shake_contract, of 32 77 "[104, 105]"] by auto
  define c where "c = map (\<lambda>b. b + toy_shift (CBC aes_key iv)) padded"
  have enc: "encrypter_feed toy_modules (CBC aes_key iv) padded = Inr c"
    by (simp add: toy_modules_def toy_encrypter_feed_def c_def)
  have dec: "decrypter_feed toy_modules (CBC aes_key iv) c = Inr padded"
    by (simp add: toy_modules_def toy_decrypter_feed_def c_def o_def)
  have e: "encrypt_message toy_modules 5 77 49 72 [104, 105] = Inr ((15, 0), c)"
    using T [of 77 "[104, 105]" "[]"] by (simp add: mode sh pad enc)
  have d: "decrypt_message toy_modules 50 [15, 0] c = Inr [104, 105]"
    using T [of 77 "[104, 105]" c] by (simp add: mode sh dec unpad)
  show ?thesis
    using toy_sha3_contract toy_points_example toy_recover_point_example decimal_string_43
          m l e d
    by blast
qed


section \<open>decrypt\_and\_verify on malformed messages of the small instance\<close>

theorem decrypt_and_verify_malformed_message_witness:
  "read_private_key toy_modules bob_private = Inr \<lparr>sk_k = 50, sk_name = [66], sk_email = []\<rparr>
   \<and> read_public_key toy_modules alice_public
        = Inr \<lparr>pk_kx = 67, pk_ky = 72, pk_name = [], pk_email = []\<rparr>
   \<and> rs_decode toy_modules 8 [] = Inl ExternalError
   \<and> decrypt_and_verify toy_modules [] alice_public bob_private = Inr (None, False)
   \<and> rs_decode toy_modules 8 (replicate 8 0) = Inr []
   \<and> der_decode_message toy_modules [] = Inl ExternalError
   \<and> decrypt_and_verify toy_modules (replicate 8 0) alice_public bob_private = Inr (None, False)"
proof -
  have r1: "rs_decode toy_modules 8 [] = Inl ExternalError"
    by (simp add: toy_modules_def toy_rs_decode_def)
  have r2: "rs_decode toy_modules 8 (replicate 8 0) = Inr []"
    by (simp add: toy_modules_def toy_rs_decode_def)
  have d2: "der_decode_message toy_modules [] = Inl ExternalError"
    by (simp add: toy_modules_def toy_decode_message_def toy_decode_int_def)
  have "decrypt_and_verify toy_modules [] alice_public bob_private = Inr (None, False)"
    using r1 by (intro decrypt_and_verify_malformed_message
                         [OF read_bob_private read_alice_public]) blast
  moreover
  have "decrypt_and_verify toy_modules (replicate 8 0) alice_public bob_private
          = Inr (None, False)"
    using r2 d2 by (intro decrypt_and_verify_malformed_message
                         [OF read_bob_private read_alice_public]) blast
  ultimately show ?thesis
    using r1 r2 d2 read_bob_private read_alice_public by simp
qed





theorem keyfile_framing_asymmetric_witness:
  "read_public_key toy_modules alice_public
     = Inr \<lparr>pk_kx = 67, pk_ky = 72, pk_name = [], pk_email = []\<rparr>
   \<and> (\<exists>body raw frame.
         strip_headers alice_public = (Some ''BEGIN FINCRYPT PUBLIC KEY'', Some body)
       \<and> urlsafe_b64decode toy_modules (encode_utf8 body) = Inr raw
       \<and> rs_decode toy_modules 30 raw = Inr frame
       \<and> der_decode_public_key toy_modules frame
            = Inr \<lparr>pk_kx = 67, pk_ky = 72, pk_name = [], pk_email = []\<rparr>)
   \<and> read_private_key (toy_modules\<lparr>rs_decode := \<lambda>p b. Inl ExternalError\<rparr>) alice_private
     = Inr \<lparr>sk_k = 56, sk_name = [65], sk_email = []\<rparr>"
proof -
  let ?pub = "\<lparr>pk_kx = 67, pk_ky = 72, pk_name = [], pk_email = []\<rparr>"
  let ?priv = "\<lparr>sk_k = 56, sk_name = [65], sk_email = []\<rparr>"
  let ?failing = "\<lambda>(p::nat) (b::bytes). Inl ExternalError :: error + bytes"
  note pub = keyfile_framing_asymmetric [of toy_modules alice_public ?pub ?priv ?failing]
  note priv = keyfile_framing_asymmetric [of toy_modules alice_private ?pub ?priv ?failing]
  have "\<exists>body raw frame.
         strip_headers alice_public = (Some ''BEGIN FINCRYPT PUBLIC KEY'', Some body)
       \<and> urlsafe_b64decode toy_modules (encode_utf8 body) = Inr raw
       \<and> rs_decode toy_modules 30 raw = Inr frame
       \<and> der_decode_public_key toy_modules frame = Inr ?pub"
    using pub [THEN conjunct1] read_alice_public by simp
  moreover
  have "read_private_key (toy_modules\<lparr>rs_decode := ?failing\<rparr>) alice_private = Inr ?priv"
    using priv [THEN conjunct2, THEN conjunct2] read_alice_private by simp
  ultimately show ?thesis
    using read_alice_public by simp
qed

text \<open>
  The hypothesis on the hash function of \<open>None\<close> cannot be dropped. With a hash function
  that treats \<open>None\<close> like the empty byte string, a blob whose decryption fails and whose
  signature is valid for the empty message is reported as verified without a plaintext.
\<close>

lemma decrypt_and_verify_lenient_hash:
  "decrypt_and_verify lenient_hash_modules signed_empty_message_blob alice_public bob_private
     = Inr (None, True)"
  by code_simp

end
